theory Spec2Isabelle
  imports Complex_Main
begin

section \<open>Python values and exceptions\<close>

text \<open>
  The module \<open>mqtt_utility.py\<close> is Python 2. Its numbers (ints and floats: observation
  values, epoch timestamps, unit system codes) are modelled as \<open>real\<close>, and a name that
  may hold \<open>None\<close> as an \<open>option\<close>. An attribute that \<open>__init__\<close> creates only under a
  flag (\<open>history\<close>, \<open>day_sum\<close>, ...) is an \<open>option\<close> field as well: \<open>None\<close> stands for the
  missing attribute, and reading it is the \<open>AttributeError\<close> branch. Every exception the
  modelled code can raise is a value of \<open>py_error\<close>, returned as \<open>Inl\<close>.
\<close>

datatype py_error =
  AttributeError | KeyError | NameError | TypeError | ValueError | ZeroDivisionError

text \<open>\<open>Buffer.MAX_AGE\<close>: maximum time (seconds) to keep an obs value.\<close>

definition MAX_AGE :: real where
  "MAX_AGE = 600"

text \<open>
  An \<open>ObsTuple\<close> is the pair (value, ts). Its docstring allows a ts of \<open>None\<close>, and
  \<open>trim_history\<close> tests for it, so the timestamp of a history entry is optional.
  Python 2 orders \<open>None\<close> below every number: \<open>None > x\<close> and \<open>None >= x\<close> are false.
\<close>

fun py_gt :: "real option \<Rightarrow> real \<Rightarrow> bool" where
  "py_gt None y = False"
| "py_gt (Some x) y = (x > y)"

fun py_ge :: "real option \<Rightarrow> real \<Rightarrow> bool" where
  "py_ge None y = False"
| "py_ge (Some x) y = (x \<ge> y)"

text \<open>
  The functions of Python's \<open>math\<close> module work on floats and are no code of this
  repository: the model takes them as a parameter.
\<close>

record pymath =
  m_cos :: "real \<Rightarrow> real"
  m_sin :: "real \<Rightarrow> real"
  m_radians :: "real \<Rightarrow> real"
  m_degrees :: "real \<Rightarrow> real"
  m_atan2 :: "real \<Rightarrow> real \<Rightarrow> real"
  m_sqrt :: "real \<Rightarrow> real"

section \<open>class ScalarBuffer\<close>

text \<open>The accumulator fields \<open>__init__\<close> reads from \<open>stats\<close>.\<close>

record scalar_stats =
  stats_min :: "real option"
  stats_mintime :: "real option"
  stats_max :: "real option"
  stats_maxtime :: "real option"
  stats_sum :: real

record ScalarBuffer =
  units :: "real option"
  lastval :: "real option"
  lasttime :: "real option"
  day_min :: "real option"
  day_mintime :: "real option"
  day_max :: "real option"
  day_maxtime :: "real option"
  history :: "(real \<times> real option) list option"
  history_full :: "bool option"
  day_sum :: "real option"
  nineam_sum :: "real option"
  interval_sum :: "real option"

definition ScalarBuffer_init ::
  "scalar_stats option \<Rightarrow> real option \<Rightarrow> bool \<Rightarrow> bool \<Rightarrow> ScalarBuffer" where
  "ScalarBuffer_init stats u hist sm =
     \<lparr> units = u, lastval = None, lasttime = None,
       day_min = (case stats of Some st \<Rightarrow> stats_min st | None \<Rightarrow> None),
       day_mintime = (case stats of Some st \<Rightarrow> stats_mintime st | None \<Rightarrow> None),
       day_max = (case stats of Some st \<Rightarrow> stats_max st | None \<Rightarrow> None),
       day_maxtime = (case stats of Some st \<Rightarrow> stats_maxtime st | None \<Rightarrow> None),
       history = (if hist then Some [] else None),
       history_full = (if hist then Some False else None),
       day_sum = (if sm then Some (case stats of Some st \<Rightarrow> stats_sum st | None \<Rightarrow> 0)
                  else None),
       nineam_sum = (if sm then Some 0 else None),
       interval_sum = (if sm then Some 0 else None) \<rparr>"

text \<open>
  \<open>trim_history\<close>: \<open>min\<close> of an empty list raises \<open>ValueError\<close>; a \<open>None\<close> argument makes
  \<open>ts - Buffer.MAX_AGE\<close> a \<open>TypeError\<close>. Entries with \<open>s.ts > oldest_ts\<close> are kept.
\<close>

definition ScalarBuffer_trim_history ::
  "ScalarBuffer \<Rightarrow> real option \<Rightarrow> py_error + ScalarBuffer" where
  "ScalarBuffer_trim_history s ts =
     (case ts of
        None \<Rightarrow> Inl TypeError
      | Some t \<Rightarrow>
          (let oldest_ts = t - MAX_AGE in
           case history s of
             None \<Rightarrow> Inl AttributeError
           | Some h \<Rightarrow>
               (case List.map_filter snd h of
                  [] \<Rightarrow> Inl ValueError
                | a # as \<Rightarrow>
                    Inr (s\<lparr> history_full := Some (min_list (a # as) \<le> oldest_ts),
                            history := Some (filter (\<lambda>e. py_gt (snd e) oldest_ts) h) \<rparr>))))"

text \<open>The four blocks of \<open>add_value\<close>, in the order of the source.\<close>

definition scalar_set_last :: "ScalarBuffer \<Rightarrow> real \<Rightarrow> real option \<Rightarrow> ScalarBuffer" where
  "scalar_set_last s v ts =
     (case lasttime s of
        None \<Rightarrow> s\<lparr> lastval := Some v, lasttime := ts \<rparr>
      | Some l \<Rightarrow> if py_ge ts l then s\<lparr> lastval := Some v, lasttime := ts \<rparr> else s)"

definition scalar_set_min :: "ScalarBuffer \<Rightarrow> real \<Rightarrow> real option \<Rightarrow> ScalarBuffer" where
  "scalar_set_min s v ts =
     (case day_min s of
        None \<Rightarrow> s\<lparr> day_min := Some v, day_mintime := ts \<rparr>
      | Some m \<Rightarrow> if v < m then s\<lparr> day_min := Some v, day_mintime := ts \<rparr> else s)"

definition scalar_set_max :: "ScalarBuffer \<Rightarrow> real \<Rightarrow> real option \<Rightarrow> ScalarBuffer" where
  "scalar_set_max s v ts =
     (case day_max s of
        None \<Rightarrow> s\<lparr> day_max := Some v, day_maxtime := ts \<rparr>
      | Some m \<Rightarrow> if v > m then s\<lparr> day_max := Some v, day_maxtime := ts \<rparr> else s)"

definition scalar_add_history ::
  "ScalarBuffer \<Rightarrow> real \<Rightarrow> real option \<Rightarrow> py_error + ScalarBuffer" where
  "scalar_add_history s v ts =
     (case history s of
        None \<Rightarrow> Inl AttributeError
      | Some h \<Rightarrow> ScalarBuffer_trim_history (s\<lparr> history := Some (h @ [(v, ts)]) \<rparr>) ts)"

definition scalar_add_sums :: "ScalarBuffer \<Rightarrow> real \<Rightarrow> py_error + ScalarBuffer" where
  "scalar_add_sums s v =
     (case (day_sum s, nineam_sum s, interval_sum s) of
        (Some d, Some n, Some i) \<Rightarrow>
          Inr (s\<lparr> day_sum := Some (d + v), nineam_sum := Some (n + v),
                  interval_sum := Some (i + v) \<rparr>)
      | _ \<Rightarrow> Inl AttributeError)"

definition ScalarBuffer_add_value ::
  "ScalarBuffer \<Rightarrow> real option \<Rightarrow> real option \<Rightarrow> bool \<Rightarrow> bool \<Rightarrow> bool
     \<Rightarrow> py_error + ScalarBuffer" where
  "ScalarBuffer_add_value s val ts hilo hist sm =
     (case val of
        None \<Rightarrow> Inr s
      | Some v \<Rightarrow>
          (let s1 = scalar_set_last s v ts;
               s2 = (if hilo then scalar_set_max (scalar_set_min s1 v ts) v ts else s1)
           in case (if hist then scalar_add_history s2 v ts else Inr s2) of
                Inl e \<Rightarrow> Inl e
              | Inr s3 \<Rightarrow> if sm then scalar_add_sums s3 v else Inr s3))"

text \<open>
  \<open>day_reset\<close>: the assignment \<open>self.day_sum = 0.0\<close> cannot raise \<open>AttributeError\<close>, so the
  attribute is set whether or not the buffer tracks sums.
\<close>

definition ScalarBuffer_day_reset :: "ScalarBuffer \<Rightarrow> ScalarBuffer" where
  "ScalarBuffer_day_reset s =
     s\<lparr> day_min := None, day_mintime := None, day_max := None, day_maxtime := None,
        day_sum := Some 0 \<rparr>"

definition ScalarBuffer_nineam_reset :: "ScalarBuffer \<Rightarrow> ScalarBuffer" where
  "ScalarBuffer_nineam_reset s = s\<lparr> nineam_sum := Some 0 \<rparr>"

text \<open>
  \<open>history_max\<close>: the module never imports or defines \<open>itemgetter\<close> (its imports are
  math, socket, ssl, syslog, time, urllib2, urlparse, paho and weewx), so evaluating
  \<open>max(snapshot, key=itemgetter(1))\<close> raises \<open>NameError\<close> whenever the snapshot is not
  empty.
\<close>

definition ScalarBuffer_history_max ::
  "ScalarBuffer \<Rightarrow> real \<Rightarrow> real \<Rightarrow> py_error + (real \<times> real option) option" where
  "ScalarBuffer_history_max s ts age =
     (let born = ts - age in
      case history s of
        None \<Rightarrow> Inl AttributeError
      | Some h \<Rightarrow>
          (let snapshot = filter (\<lambda>a. py_ge (snd a) born) h
           in if length snapshot > 0 then Inl NameError else Inr None))"

text \<open>
  \<open>history_avg\<close> tests the length of the whole history, not of the selected records:
  \<open>float(sum(rec))/len(rec)\<close> divides by zero when no entry is young enough.
\<close>

definition ScalarBuffer_history_avg ::
  "ScalarBuffer \<Rightarrow> real \<Rightarrow> real \<Rightarrow> py_error + real option" where
  "ScalarBuffer_history_avg s ts age =
     (case history s of
        None \<Rightarrow> Inl AttributeError
      | Some h \<Rightarrow>
          if length h > 0 then
            (let born = ts - age;
                 rec = map fst (filter (\<lambda>a. py_ge (snd a) born) h)
             in if length rec = 0 then Inl ZeroDivisionError
                else Inr (Some (sum_list rec / real (length rec))))
          else Inr None)"

text \<open>A sequence of \<open>add_value\<close> calls with non-null values and hilo tracking enabled.\<close>

fun add_values ::
  "ScalarBuffer \<Rightarrow> (real \<times> real) list \<Rightarrow> bool \<Rightarrow> bool \<Rightarrow> py_error + ScalarBuffer" where
  "add_values s [] hist sm = Inr s"
| "add_values s (x # xs) hist sm =
     (case ScalarBuffer_add_value s (Some (fst x)) (Some (snd x)) True hist sm of
        Inl e \<Rightarrow> Inl e
      | Inr s' \<Rightarrow> add_values s' xs hist sm)"

text \<open>
  The attributes a call with flags \<open>hist\<close> and \<open>sm\<close> reads: present when the buffer was
  constructed with the same flags.
\<close>

definition has_attrs :: "ScalarBuffer \<Rightarrow> bool \<Rightarrow> bool \<Rightarrow> bool" where
  "has_attrs s hist sm =
     ((hist \<longrightarrow> history s \<noteq> None) \<and>
      (sm \<longrightarrow> day_sum s \<noteq> None \<and> nineam_sum s \<noteq> None \<and> interval_sum s \<noteq> None))"

text \<open>
  The running extremes of a sequence of samples, as a fold over (value, timestamp)
  pairs: the pair (extreme, its time) after one more sample, under the strict
  comparisons of \<open>add_value\<close>. Used to state the result of \<open>add_values\<close>.
\<close>

fun hi_step :: "real option \<times> real option \<Rightarrow> real \<times> real \<Rightarrow> real option \<times> real option" where
  "hi_step (m, mt) (v, t) =
     (case m of None \<Rightarrow> (Some v, Some t)
      | Some x \<Rightarrow> if v > x then (Some v, Some t) else (m, mt))"

fun lo_step :: "real option \<times> real option \<Rightarrow> real \<times> real \<Rightarrow> real option \<times> real option" where
  "lo_step (m, mt) (v, t) =
     (case m of None \<Rightarrow> (Some v, Some t)
      | Some x \<Rightarrow> if v < x then (Some v, Some t) else (m, mt))"

section \<open>class VectorBuffer\<close>

record vector_stats =
  vstats_min :: "real option"
  vstats_mintime :: "real option"
  vstats_max :: "real option"
  vstats_max_dir :: "real option"
  vstats_maxtime :: "real option"
  vstats_sum :: real
  vstats_xsum :: real
  vstats_ysum :: real
  vstats_sumtime :: real

text \<open>
  The fields carry the prefix \<open>v_\<close> (the attribute names are those of the scalar class).
  A history entry is \<open>ObsTuple((speed, x, y), ts)\<close>; \<open>last\<close> is the pair (speed, dir).
\<close>

record VectorBuffer =
  v_units :: "real option"
  v_last :: "(real \<times> real option) option"
  v_lasttime :: "real option"
  v_day_min :: "real option"
  v_day_mintime :: "real option"
  v_day_max :: "real option"
  v_day_max_dir :: "real option"
  v_day_maxtime :: "real option"
  v_history :: "((real \<times> real \<times> real) \<times> real option) list option"
  v_history_full :: "bool option"
  v_day_sum :: "real option"
  v_day_xsum :: "real option"
  v_day_ysum :: "real option"
  v_sumtime :: "real option"
  v_nineam_sum :: "real option"
  v_interval_sum :: "real option"

definition VectorBuffer_init ::
  "vector_stats option \<Rightarrow> real option \<Rightarrow> bool \<Rightarrow> bool \<Rightarrow> VectorBuffer" where
  "VectorBuffer_init stats u hist sm =
     \<lparr> v_units = u, v_last = None, v_lasttime = None,
       v_day_min = (case stats of Some st \<Rightarrow> vstats_min st | None \<Rightarrow> None),
       v_day_mintime = (case stats of Some st \<Rightarrow> vstats_mintime st | None \<Rightarrow> None),
       v_day_max = (case stats of Some st \<Rightarrow> vstats_max st | None \<Rightarrow> None),
       v_day_max_dir = (case stats of Some st \<Rightarrow> vstats_max_dir st | None \<Rightarrow> None),
       v_day_maxtime = (case stats of Some st \<Rightarrow> vstats_maxtime st | None \<Rightarrow> None),
       v_history = (if hist then Some [] else None),
       v_history_full = (if hist then Some False else None),
       v_day_sum = (if sm then Some (case stats of Some st \<Rightarrow> vstats_sum st | None \<Rightarrow> 0)
                    else None),
       v_day_xsum = (if sm then Some (case stats of Some st \<Rightarrow> vstats_xsum st | None \<Rightarrow> 0)
                     else None),
       v_day_ysum = (if sm then Some (case stats of Some st \<Rightarrow> vstats_ysum st | None \<Rightarrow> 0)
                     else None),
       v_sumtime = (if sm then Some (case stats of Some st \<Rightarrow> vstats_sumtime st | None \<Rightarrow> 0)
                    else None),
       v_nineam_sum = (if sm then Some 0 else None),
       v_interval_sum = (if sm then Some 0 else None) \<rparr>"

definition VectorBuffer_trim_history ::
  "VectorBuffer \<Rightarrow> real option \<Rightarrow> py_error + VectorBuffer" where
  "VectorBuffer_trim_history s ts =
     (case ts of
        None \<Rightarrow> Inl TypeError
      | Some t \<Rightarrow>
          (let oldest_ts = t - MAX_AGE in
           case v_history s of
             None \<Rightarrow> Inl AttributeError
           | Some h \<Rightarrow>
               (case List.map_filter snd h of
                  [] \<Rightarrow> Inl ValueError
                | a # as \<Rightarrow>
                    Inr (s\<lparr> v_history_full := Some (min_list (a # as) \<le> oldest_ts),
                            v_history := Some (filter (\<lambda>e. py_gt (snd e) oldest_ts) h) \<rparr>))))"

definition vector_set_min :: "VectorBuffer \<Rightarrow> real \<Rightarrow> real option \<Rightarrow> VectorBuffer" where
  "vector_set_min s w ts =
     (case v_day_min s of
        None \<Rightarrow> s\<lparr> v_day_min := Some w, v_day_mintime := ts \<rparr>
      | Some m \<Rightarrow> if w < m then s\<lparr> v_day_min := Some w, v_day_mintime := ts \<rparr> else s)"

definition vector_set_max ::
  "VectorBuffer \<Rightarrow> real \<Rightarrow> real option \<Rightarrow> real option \<Rightarrow> VectorBuffer" where
  "vector_set_max s w w_dir ts =
     (case v_day_max s of
        None \<Rightarrow> s\<lparr> v_day_max := Some w, v_day_max_dir := w_dir, v_day_maxtime := ts \<rparr>
      | Some m \<Rightarrow>
          if w > m then s\<lparr> v_day_max := Some w, v_day_max_dir := w_dir, v_day_maxtime := ts \<rparr>
          else s)"

definition vector_add_history ::
  "pymath \<Rightarrow> VectorBuffer \<Rightarrow> real \<Rightarrow> real \<Rightarrow> real option \<Rightarrow> py_error + VectorBuffer" where
  "vector_add_history M s w d ts =
     (case v_history s of
        None \<Rightarrow> Inl AttributeError
      | Some h \<Rightarrow>
          VectorBuffer_trim_history
            (s\<lparr> v_history :=
                   Some (h @ [((w, m_cos M (m_radians M (90 - d)),
                                   m_sin M (m_radians M (90 - d))), ts)]) \<rparr>) ts)"

text \<open>
  The sum block: \<open>if self.lasttime\<close> is false for \<open>None\<close> and for 0; \<open>ts - self.lasttime\<close>
  with a \<open>None\<close> ts is a \<open>TypeError\<close>.
\<close>

definition vector_add_sumtime ::
  "VectorBuffer \<Rightarrow> real option \<Rightarrow> py_error + VectorBuffer" where
  "vector_add_sumtime s ts =
     (case v_lasttime s of
        None \<Rightarrow> Inr s
      | Some l \<Rightarrow>
          if l = 0 then Inr s
          else (case v_sumtime s of
                  None \<Rightarrow> Inl AttributeError
                | Some st \<Rightarrow>
                    (case ts of
                       None \<Rightarrow> Inl TypeError
                     | Some t \<Rightarrow> Inr (s\<lparr> v_sumtime := Some (st + (t - l)) \<rparr>))))"

definition vector_add_xysum ::
  "pymath \<Rightarrow> VectorBuffer \<Rightarrow> real \<Rightarrow> real option \<Rightarrow> py_error + VectorBuffer" where
  "vector_add_xysum M s w w_dir =
     (case w_dir of
        None \<Rightarrow> Inr s
      | Some d \<Rightarrow>
          (case (v_day_xsum s, v_day_ysum s) of
             (Some x, Some y) \<Rightarrow>
               Inr (s\<lparr> v_day_xsum := Some (x + w * m_cos M (m_radians M (90 - d))),
                       v_day_ysum := Some (y + w * m_sin M (m_radians M (90 - d))) \<rparr>)
           | _ \<Rightarrow> Inl AttributeError))"

definition vector_add_sums ::
  "pymath \<Rightarrow> VectorBuffer \<Rightarrow> real \<Rightarrow> real option \<Rightarrow> real option
     \<Rightarrow> py_error + VectorBuffer" where
  "vector_add_sums M s w w_dir ts =
     (case v_day_sum s of
        None \<Rightarrow> Inl AttributeError
      | Some d \<Rightarrow>
          (case vector_add_sumtime (s\<lparr> v_day_sum := Some (d + w) \<rparr>) ts of
             Inl e \<Rightarrow> Inl e
           | Inr s' \<Rightarrow> vector_add_xysum M s' w w_dir))"

definition vector_set_last ::
  "VectorBuffer \<Rightarrow> real \<Rightarrow> real option \<Rightarrow> real option \<Rightarrow> VectorBuffer" where
  "vector_set_last s w w_dir ts =
     (case v_lasttime s of
        None \<Rightarrow> s\<lparr> v_last := Some (w, w_dir), v_lasttime := ts \<rparr>
      | Some l \<Rightarrow> if py_ge ts l then s\<lparr> v_last := Some (w, w_dir), v_lasttime := ts \<rparr> else s)"

definition VectorBuffer_add_value ::
  "pymath \<Rightarrow> VectorBuffer \<Rightarrow> real option \<times> real option \<Rightarrow> real option
     \<Rightarrow> bool \<Rightarrow> bool \<Rightarrow> bool \<Rightarrow> py_error + VectorBuffer" where
  "VectorBuffer_add_value M s val ts hilo hist sm =
     (case fst val of
        None \<Rightarrow> Inr s
      | Some w \<Rightarrow>
          (let w_dir = snd val;
               s1 = (if hilo then vector_set_max (vector_set_min s w ts) w w_dir ts else s)
           in case (case w_dir of
                      None \<Rightarrow> Inr s1
                    | Some d \<Rightarrow> if hist then vector_add_history M s1 w d ts else Inr s1) of
                Inl e \<Rightarrow> Inl e
              | Inr s2 \<Rightarrow>
                  (case (if sm then vector_add_sums M s2 w w_dir ts else Inr s2) of
                     Inl e \<Rightarrow> Inl e
                   | Inr s3 \<Rightarrow> Inr (vector_set_last s3 w w_dir ts))))"

definition VectorBuffer_day_reset :: "VectorBuffer \<Rightarrow> VectorBuffer" where
  "VectorBuffer_day_reset s =
     s\<lparr> v_day_min := None, v_day_mintime := None, v_day_max := None, v_day_max_dir := None,
        v_day_maxtime := None, v_day_sum := Some 0 \<rparr>"

definition VectorBuffer_nineam_reset :: "VectorBuffer \<Rightarrow> VectorBuffer" where
  "VectorBuffer_nineam_reset s = s\<lparr> v_nineam_sum := Some 0 \<rparr>"

text \<open>
  The properties \<open>day_vec_avg\<close> and \<open>day_vec_dir\<close>: computed from the component sums at
  every read. A float division by a zero \<open>sumtime\<close> raises \<open>ZeroDivisionError\<close>.
\<close>

definition day_vec_avg :: "pymath \<Rightarrow> VectorBuffer \<Rightarrow> py_error + real" where
  "day_vec_avg M s =
     (case (v_day_xsum s, v_day_ysum s, v_sumtime s) of
        (Some x, Some y, Some t) \<Rightarrow>
          if t\<^sup>2 = 0 then Inl ZeroDivisionError
          else Inr (m_sqrt M ((x\<^sup>2 + y\<^sup>2) / t\<^sup>2))
      | _ \<Rightarrow> Inl AttributeError)"

definition day_vec_dir :: "pymath \<Rightarrow> VectorBuffer \<Rightarrow> py_error + real" where
  "day_vec_dir M s =
     (case (v_day_xsum s, v_day_ysum s) of
        (Some x, Some y) \<Rightarrow>
          (let dir = 90 - m_degrees M (m_atan2 M y x)
           in Inr (if dir < 0 then dir + 360 else dir))
      | _ \<Rightarrow> Inl AttributeError)"

section \<open>class Buffer\<close>

text \<open>
  A loop packet is a Python dict from field names to numbers or \<open>None\<close>; the markers
  \<open>dateTime\<close> and \<open>usUnits\<close> are fields of it. It is modelled as an association list
  (a dict has each key once; the order of the list is the dict's iteration order), read
  with \<open>map_of\<close>. \<open>packet[k]\<close> raises \<open>KeyError\<close> for a missing key, \<open>packet.get(k)\<close> gives
  \<open>None\<close>.
\<close>

type_synonym packet = "(string \<times> real option) list"

definition getitem :: "packet \<Rightarrow> string \<Rightarrow> py_error + real option" where
  "getitem p k = (case map_of p k of None \<Rightarrow> Inl KeyError | Some v \<Rightarrow> Inr v)"

definition get_or_none :: "packet \<Rightarrow> string \<Rightarrow> real option" where
  "get_or_none p k = (case map_of p k of None \<Rightarrow> None | Some v \<Rightarrow> v)"

definition MANIFEST :: "string list" where
  "MANIFEST = [''outTemp'', ''barometer'', ''outHumidity'', ''rain'', ''rainRate'',
               ''humidex'', ''windchill'', ''heatindex'', ''windSpeed'', ''inTemp'',
               ''appTemp'', ''dewpoint'', ''windDir'', ''UV'', ''radiation'', ''wind'',
               ''windGust'', ''windGustDir'']"

definition HILO_MANIFEST :: "string list" where
  "HILO_MANIFEST = [''outTemp'', ''barometer'', ''outHumidity'',
                    ''humidex'', ''windchill'', ''heatindex'', ''windSpeed'', ''inTemp'',
                    ''appTemp'', ''dewpoint'', ''UV'', ''radiation'', ''windGust'',
                    ''windGustDir'']"

definition HIST_MANIFEST :: "string list" where
  "HIST_MANIFEST = [''windSpeed'', ''windDir'', ''wind'']"

definition SUM_MANIFEST :: "string list" where
  "SUM_MANIFEST = [''rain'', ''wind'']"

text \<open>
  The Buffer is a dict from observation names to ScalarBuffer or VectorBuffer objects,
  with the attributes \<open>primary_unit_system\<close>, \<open>last_windSpeed_ts\<close> and \<open>windrun\<close>.
\<close>

datatype obs_buffer = Scalar ScalarBuffer | Vector VectorBuffer

fun buffer_units :: "obs_buffer \<Rightarrow> real option" where
  "buffer_units (Scalar s) = units s"
| "buffer_units (Vector v) = v_units v"

record Buffer =
  obs :: "string \<rightharpoonup> obs_buffer"
  primary_unit_system :: "real option"
  last_windSpeed_ts :: "real option"
  windrun :: real

text \<open>
  \<open>weewx.units\<close> is no code of this repository. The parameter \<open>cs\<close> stands for
  \<open>getStandardUnitType\<close> followed by \<open>convertStd(...).value\<close>: from the observation name,
  the packet's unit system, the value and the target unit system to the converted value.
\<close>

type_synonym converter = "string \<Rightarrow> real option \<Rightarrow> real option \<Rightarrow> real option \<Rightarrow> real option"

text \<open>
  \<open>Buffer.add_value\<close>. \<open>init_dict\<close> maps \<open>wind\<close> to VectorBuffer, every other name to
  ScalarBuffer. A VectorBuffer stored under the name unpacks its value argument
  \<open>(w_speed, w_dir) = val\<close>, which is a \<open>TypeError\<close> for a number or \<open>None\<close>.
\<close>

definition Buffer_add_value ::
  "converter \<Rightarrow> Buffer \<Rightarrow> packet \<Rightarrow> string \<Rightarrow> bool \<Rightarrow> bool \<Rightarrow> bool \<Rightarrow> py_error + Buffer" where
  "Buffer_add_value cs b p name hilo hist sm =
     (case getitem p ''usUnits'' of
        Inl e \<Rightarrow> Inl e
      | Inr us \<Rightarrow>
          (let entry = (case obs b name of
                          Some en \<Rightarrow> en
                        | None \<Rightarrow>
                            if name = ''wind'' then Vector (VectorBuffer_init None us hist sm)
                            else Scalar (ScalarBuffer_init None us hist sm))
           in case getitem p name of
                Inl e \<Rightarrow> Inl e
              | Inr pv \<Rightarrow>
                  (let val = (if buffer_units entry = us then pv
                              else cs name us pv (buffer_units entry))
                   in case getitem p ''dateTime'' of
                        Inl e \<Rightarrow> Inl e
                      | Inr ts \<Rightarrow>
                          (case entry of
                             Scalar s \<Rightarrow>
                               (case ScalarBuffer_add_value s val ts hilo hist sm of
                                  Inl e \<Rightarrow> Inl e
                                | Inr s' \<Rightarrow> Inr (b\<lparr> obs := (obs b)(name \<mapsto> Scalar s') \<rparr>))
                           | Vector v \<Rightarrow> Inl TypeError))))"

text \<open>
  The windrun block of \<open>add_wind_value\<close>: the sum is \<open>packet['windSpeed'] *
  (packet['dateTime'] - self.last_windSpeed_ts)/1000.0\<close>; a \<open>None\<close> operand raises the
  \<open>TypeError\<close> that the block catches, and then only the timestamp is recorded.
\<close>

definition update_windrun :: "Buffer \<Rightarrow> packet \<Rightarrow> py_error + Buffer" where
  "update_windrun b p =
     (case map_of p ''windSpeed'' of
        None \<Rightarrow> Inr b
      | Some ws \<Rightarrow>
          (case getitem p ''dateTime'' of
             Inl e \<Rightarrow> Inl e
           | Inr dt \<Rightarrow>
               Inr (b\<lparr> windrun :=
                         (case (ws, dt, last_windSpeed_ts b) of
                            (Some v, Some t, Some t0) \<Rightarrow> windrun b + v * (t - t0) / 1000
                          | _ \<Rightarrow> windrun b),
                       last_windSpeed_ts := dt \<rparr>)))"

text \<open>
  The last block of \<open>add_wind_value\<close> feeds the vector \<open>wind\<close> with the defaults
  \<open>hilo=True, history=True, sum=True\<close>. A ScalarBuffer stored under \<open>wind\<close> is called with
  too few arguments, a \<open>TypeError\<close>.
\<close>

definition add_wind_vector ::
  "pymath \<Rightarrow> converter \<Rightarrow> Buffer \<Rightarrow> packet \<Rightarrow> py_error + Buffer" where
  "add_wind_vector M cs b p =
     (case getitem p ''usUnits'' of
        Inl e \<Rightarrow> Inl e
      | Inr us \<Rightarrow>
          (let entry = (case obs b ''wind'' of
                          Some en \<Rightarrow> en
                        | None \<Rightarrow> Vector (VectorBuffer_init None us True True))
           in case getitem p ''windSpeed'' of
                Inl e \<Rightarrow> Inl e
              | Inr pv \<Rightarrow>
                  (let val = (if buffer_units entry = us then pv
                              else cs ''windSpeed'' us pv (buffer_units entry))
                   in case getitem p ''dateTime'' of
                        Inl e \<Rightarrow> Inl e
                      | Inr ts \<Rightarrow>
                          (case entry of
                             Scalar s \<Rightarrow> Inl TypeError
                           | Vector v \<Rightarrow>
                               (case VectorBuffer_add_value M v (val, get_or_none p ''windDir'')
                                       ts True True True of
                                  Inl e \<Rightarrow> Inl e
                                | Inr v' \<Rightarrow>
                                    Inr (b\<lparr> obs := (obs b)(''wind'' \<mapsto> Vector v') \<rparr>))))))"

definition Buffer_add_wind_value ::
  "pymath \<Rightarrow> converter \<Rightarrow> Buffer \<Rightarrow> packet \<Rightarrow> string \<Rightarrow> bool \<Rightarrow> bool \<Rightarrow> bool
     \<Rightarrow> py_error + Buffer" where
  "Buffer_add_wind_value M cs b p name hilo hist sm =
     (case Buffer_add_value cs b p name hilo hist sm of
        Inl e \<Rightarrow> Inl e
      | Inr b1 \<Rightarrow>
          (case update_windrun b1 p of
             Inl e \<Rightarrow> Inl e
           | Inr b2 \<Rightarrow> add_wind_vector M cs b2 p))"

text \<open>
  \<open>add_packet\<close>: \<open>add_functions\<close> maps \<open>windSpeed\<close> to \<open>add_wind_value\<close>, every other name
  to \<open>add_value\<close>. A packet with a \<open>None\<close> timestamp is skipped.
\<close>

fun add_fields ::
  "pymath \<Rightarrow> converter \<Rightarrow> Buffer \<Rightarrow> packet \<Rightarrow> string list \<Rightarrow> py_error + Buffer" where
  "add_fields M cs b p [] = Inr b"
| "add_fields M cs b p (name # names) =
     (case (if name = ''windSpeed''
            then Buffer_add_wind_value M cs b p name (name \<in> set HILO_MANIFEST)
                   (name \<in> set HIST_MANIFEST) (name \<in> set SUM_MANIFEST)
            else Buffer_add_value cs b p name (name \<in> set HILO_MANIFEST)
                   (name \<in> set HIST_MANIFEST) (name \<in> set SUM_MANIFEST)) of
        Inl e \<Rightarrow> Inl e
      | Inr b' \<Rightarrow> add_fields M cs b' p names)"

definition Buffer_add_packet ::
  "pymath \<Rightarrow> converter \<Rightarrow> Buffer \<Rightarrow> packet \<Rightarrow> py_error + Buffer" where
  "Buffer_add_packet M cs b p =
     (case getitem p ''dateTime'' of
        Inl e \<Rightarrow> Inl e
      | Inr None \<Rightarrow> Inr b
      | Inr (Some t) \<Rightarrow>
          add_fields M cs b p (filter (\<lambda>f. f \<in> set MANIFEST) (map fst p)))"

text \<open>
  \<open>nineam_reset\<close> iterates \<open>for obs in SUM\<close>. No name \<open>SUM\<close> is bound in the method, the
  class body is no enclosing scope of it, the module defines none and it is no builtin:
  evaluating it raises \<open>NameError\<close> before any observation is touched.
\<close>

definition Buffer_nineam_reset :: "Buffer \<Rightarrow> py_error + Buffer" where
  "Buffer_nineam_reset b = Inl NameError"

section \<open>class CachedPacket\<close>

record cache_entry =
  ce_value :: "real option"
  ce_ts :: "real option"

record CachedPacket =
  cache :: "string \<rightharpoonup> cache_entry"
  unit_system :: "real option"

definition OBS :: "string list" where
  "OBS = [''cloudbase'', ''windDir'', ''windrun'', ''inHumidity'', ''outHumidity'',
          ''barometer'', ''radiation'', ''rain'', ''rainRate'', ''windSpeed'',
          ''appTemp'', ''dewpoint'', ''heatindex'', ''humidex'', ''inTemp'',
          ''outTemp'', ''windchill'', ''UV'']"

text \<open>
  \<open>__init__\<close>; the parameter \<open>now\<close> stands for \<open>int(time.time() + 0.5)\<close>, used when the
  record has no \<open>dateTime\<close>.
\<close>

definition CachedPacket_init :: "packet \<Rightarrow> real \<Rightarrow> CachedPacket" where
  "CachedPacket_init rec now =
     (let ts0 = (case map_of rec ''dateTime'' of Some t \<Rightarrow> t | None \<Rightarrow> Some now)
      in \<lparr> cache =
             map_of (map (\<lambda>name.
                            (name,
                             (case (map_of rec name, map_of rec ''usUnits'') of
                                (Some v, Some u) \<Rightarrow> \<lparr> ce_value = v, ce_ts = ts0 \<rparr>
                              | _ \<Rightarrow> \<lparr> ce_value = None, ce_ts = ts0 \<rparr>)))
                         OBS),
           unit_system = (case map_of rec ''usUnits'' of Some u \<Rightarrow> u | None \<Rightarrow> None) \<rparr>)"

text \<open>
  The loop of \<open>update\<close> over the fields of the packet other than the two markers: a
  non-null value is stored with the timestamp, under whatever name it has.
\<close>

definition store_field :: "packet \<Rightarrow> real option \<Rightarrow> string \<Rightarrow> CachedPacket \<Rightarrow> CachedPacket" where
  "store_field p ts name c =
     (case map_of p name of
        Some (Some v) \<Rightarrow> c\<lparr> cache := (cache c)(name \<mapsto> \<lparr> ce_value = Some v, ce_ts = ts \<rparr>) \<rparr>
      | _ \<Rightarrow> c)"

definition store_fields :: "CachedPacket \<Rightarrow> packet \<Rightarrow> real option \<Rightarrow> CachedPacket" where
  "store_fields c p ts =
     fold (store_field p ts)
       (filter (\<lambda>x. x \<notin> set [''dateTime'', ''usUnits'']) (map fst p)) c"

text \<open>
  \<open>update\<close>; \<open>to_std\<close> stands for \<open>weewx.units.to_std_system\<close>, called when the cache has
  a unit system and the packet's differs.
\<close>

definition CachedPacket_update ::
  "(packet \<Rightarrow> real option \<Rightarrow> packet) \<Rightarrow> CachedPacket \<Rightarrow> packet \<Rightarrow> real option
     \<Rightarrow> py_error + CachedPacket" where
  "CachedPacket_update to_std c p ts =
     (case getitem p ''usUnits'' of
        Inl e \<Rightarrow> Inl e
      | Inr u \<Rightarrow>
          (case unit_system c of
             None \<Rightarrow> Inr (store_fields (c\<lparr> unit_system := u \<rparr>) p ts)
           | Some us \<Rightarrow>
               if Some us = u then Inr (store_fields c p ts)
               else Inr (store_fields c (to_std p (Some us)) ts)))"

text \<open>
  \<open>get_value\<close>: \<open>ts - self.cache[obs]['ts']\<close> with a cached timestamp of \<open>None\<close> is a
  \<open>TypeError\<close>.
\<close>

definition CachedPacket_get_value ::
  "CachedPacket \<Rightarrow> string \<Rightarrow> real \<Rightarrow> real \<Rightarrow> py_error + real option" where
  "CachedPacket_get_value c name ts max_age =
     (case cache c name of
        None \<Rightarrow> Inr None
      | Some en \<Rightarrow>
          (case ce_ts en of
             None \<Rightarrow> Inl TypeError
           | Some t0 \<Rightarrow> if ts - t0 \<le> max_age then Inr (ce_value en) else Inr None))"

text \<open>A sequence of \<open>update\<close> calls, each with its packet and timestamp.\<close>

fun updates ::
  "(packet \<Rightarrow> real option \<Rightarrow> packet) \<Rightarrow> CachedPacket \<Rightarrow> (packet \<times> real option) list
     \<Rightarrow> py_error + CachedPacket" where
  "updates to_std c [] = Inr c"
| "updates to_std c (q # qs) =
     (case CachedPacket_update to_std c (fst q) (snd q) of
        Inl e \<Rightarrow> Inl e
      | Inr c' \<Rightarrow> updates to_std c' qs)"

text \<open>A field that a packet omits or carries as \<open>None\<close>.\<close>

definition omitted :: "packet \<Rightarrow> string \<Rightarrow> bool" where
  "omitted p name = (case map_of p name of Some (Some v) \<Rightarrow> False | _ \<Rightarrow> True)"

section \<open>calc_trend\<close>

text \<open>
  A \<open>ValueTuple\<close> is (value, unit, group). The database manager's \<open>getRecord\<close>,
  \<open>weewx.units.as_value_tuple\<close> and \<open>weewx.units.convert\<close> are parameters. The function
  reads its arguments and the looked-up record and assigns to locals only. The final
  \<open>now - then\<close> raises \<open>TypeError\<close> when a converted value is \<open>None\<close>.
\<close>

record value_tuple =
  vt_value :: "real option"
  vt_unit :: string
  vt_group :: string

definition calc_trend ::
  "(real \<Rightarrow> real \<Rightarrow> packet option) \<Rightarrow> (packet \<Rightarrow> string \<Rightarrow> value_tuple)
     \<Rightarrow> (value_tuple \<Rightarrow> string \<Rightarrow> value_tuple)
     \<Rightarrow> string \<Rightarrow> value_tuple \<Rightarrow> string \<Rightarrow> real \<Rightarrow> real \<Rightarrow> py_error + real option" where
  "calc_trend getRecord as_value_tuple convert obs_type now_vt target then_ts grace =
     (case vt_value now_vt of
        None \<Rightarrow> Inr None
      | Some nv \<Rightarrow>
          (case getRecord then_ts grace of
             None \<Rightarrow> Inr None
           | Some then_record \<Rightarrow>
               (case map_of then_record obs_type of
                  None \<Rightarrow> Inr None
                | Some rv \<Rightarrow>
                    (let then_vt = as_value_tuple then_record obs_type
                     in case (vt_value (convert now_vt target),
                              vt_value (convert then_vt target)) of
                          (Some a, Some b) \<Rightarrow> Inr (Some (a - b))
                        | _ \<Rightarrow> Inl TypeError))))"

section \<open>Well-formed buffers and concrete scenarios\<close>

text \<open>
  A VectorBuffer constructed with \<open>history=True, sum=True\<close> (as \<open>add_wind_value\<close> and
  \<open>seed_vector\<close> for \<open>wind\<close> do) has the attributes the history and sum blocks read.
  A Buffer is ready for \<open>add_wind_value\<close> with flags \<open>hist\<close> and \<open>sm\<close> when the entries
  stored under \<open>windSpeed\<close> and \<open>wind\<close>, if any, are the objects the Buffer itself
  creates there: a ScalarBuffer built with these flags and such a VectorBuffer.
\<close>

definition vector_attrs :: "VectorBuffer \<Rightarrow> bool" where
  "vector_attrs v =
     (v_history v \<noteq> None \<and> v_day_sum v \<noteq> None \<and> v_day_xsum v \<noteq> None \<and>
      v_day_ysum v \<noteq> None \<and> v_sumtime v \<noteq> None)"

definition wind_ready :: "Buffer \<Rightarrow> bool \<Rightarrow> bool \<Rightarrow> bool" where
  "wind_ready b hist sm =
     ((case obs b ''windSpeed'' of
         None \<Rightarrow> True
       | Some (Scalar s) \<Rightarrow> has_attrs s hist sm
       | Some (Vector v) \<Rightarrow> False) \<and>
      (case obs b ''wind'' of
         None \<Rightarrow> True
       | Some (Scalar s) \<Rightarrow> False
       | Some (Vector v) \<Rightarrow> vector_attrs v))"

text \<open>
  The inputs the theorems are evaluated on. \<open>no_math\<close> is a math module whose functions
  all return 0 and \<open>same_units\<close> a unit conversion that changes nothing; both are only
  reached on paths that the evaluated properties do not depend on. \<open>fresh_buffer\<close> is the
  Buffer \<open>__init__\<close> builds from day statistics without observations; the two packets
  are the example of the specification (10 at time 0, then 20 at time 3600), and
  \<open>after_first\<close>, \<open>after_second\<close> are the results of \<open>add_packet\<close> on them in turn.
\<close>

definition scenario_samples :: "(real \<times> real) list" where
  "scenario_samples = [(15, 2000), (5, 3000), (12, 4000)]"

definition old_scalar :: ScalarBuffer where
  "old_scalar = (ScalarBuffer_init None (Some 16) True False)
                  \<lparr> history := Some [(1, Some 100), (2, Some 900)] \<rparr>"

definition old_vector :: VectorBuffer where
  "old_vector = (VectorBuffer_init None (Some 16) True True)
                  \<lparr> v_history := Some [((1, 0, 1), Some 100), ((2, 0, 2), Some 900)] \<rparr>"

definition no_math :: pymath where
  "no_math = \<lparr> m_cos = (\<lambda>x. 0), m_sin = (\<lambda>x. 0), m_radians = (\<lambda>x. 0), m_degrees = (\<lambda>x. 0),
               m_atan2 = (\<lambda>y x. 0), m_sqrt = (\<lambda>x. 0) \<rparr>"

definition same_units :: converter where
  "same_units name us v target = v"

definition fresh_buffer :: Buffer where
  "fresh_buffer =
     \<lparr> obs = Map.empty, primary_unit_system = Some 16, last_windSpeed_ts = None, windrun = 0 \<rparr>"

definition first_packet :: packet where
  "first_packet = [(''dateTime'', Some 0), (''usUnits'', Some 16), (''windSpeed'', Some 10)]"

definition second_packet :: packet where
  "second_packet = [(''dateTime'', Some 3600), (''usUnits'', Some 16), (''windSpeed'', Some 20)]"

definition after_first :: "py_error + Buffer" where
  "after_first = Buffer_add_packet no_math same_units fresh_buffer first_packet"

definition after_second :: "py_error + Buffer" where
  "after_second = Buffer_add_packet no_math same_units (projr after_first) second_packet"

text \<open>
  For the cache: \<open>id_std\<close> stands for a \<open>to_std_system\<close> that returns the packet as it is,
  \<open>primed_cache\<close> is a cache initialised from an archive record, \<open>partial_packets\<close> are
  two later packets that omit \<open>outTemp\<close> or carry it as \<open>None\<close>, and \<open>demo_packet\<close> has
  a null field and a field \<open>foo\<close> outside \<open>CachedPacket.OBS\<close>.
\<close>

definition id_std :: "packet \<Rightarrow> real option \<Rightarrow> packet" where
  "id_std p u = p"

definition primed_cache :: CachedPacket where
  "primed_cache =
     CachedPacket_init [(''dateTime'', Some 10), (''usUnits'', Some 16), (''outTemp'', Some 21)] 0"

definition partial_packets :: "(packet \<times> real option) list" where
  "partial_packets =
     [([(''dateTime'', Some 20), (''usUnits'', Some 16), (''barometer'', Some 1013)], Some 20),
      ([(''dateTime'', Some 30), (''usUnits'', Some 16), (''outTemp'', None)], Some 30)]"

definition demo_packet :: packet where
  "demo_packet = [(''dateTime'', Some 10), (''usUnits'', Some 16), (''outTemp'', Some 21),
                  (''rain'', None), (''foo'', Some 5)]"

text \<open>
  For \<open>calc_trend\<close>: \<open>stub_record v0\<close> is a database lookup that finds a record holding
  \<open>outTemp = v0\<close>, \<open>stub_tuple\<close> reads a field of a record as a value tuple and
  \<open>same_unit\<close> is a conversion into the unit the value already has.
\<close>

definition stub_tuple :: "packet \<Rightarrow> string \<Rightarrow> value_tuple" where
  "stub_tuple r name =
     \<lparr> vt_value = get_or_none r name, vt_unit = ''degree_C'', vt_group = ''group_temperature'' \<rparr>"

definition same_unit :: "value_tuple \<Rightarrow> string \<Rightarrow> value_tuple" where
  "same_unit vt target = vt"

definition stub_record :: "real option \<Rightarrow> real \<Rightarrow> real \<Rightarrow> packet option" where
  "stub_record v0 then_ts grace =
     Some [(''dateTime'', Some then_ts), (''usUnits'', Some 16), (''outTemp'', v0)]"

section \<open>ScalarBuffer.add_value\<close>

text \<open>
  Each block of \<open>add_value\<close> changes its own attributes only, and with the attributes
  present, no block raises.
\<close>

lemma py_gt_iff: "py_gt x y \<longleftrightarrow> (\<exists>u. x = Some u \<and> u > y)"
  by (cases x) auto

lemma set_last_fields:
  "day_min (scalar_set_last s v ts) = day_min s"
  "day_mintime (scalar_set_last s v ts) = day_mintime s"
  "day_max (scalar_set_last s v ts) = day_max s"
  "day_maxtime (scalar_set_last s v ts) = day_maxtime s"
  "history (scalar_set_last s v ts) = history s"
  "day_sum (scalar_set_last s v ts) = day_sum s"
  "nineam_sum (scalar_set_last s v ts) = nineam_sum s"
  "interval_sum (scalar_set_last s v ts) = interval_sum s"
  by (simp_all add: scalar_set_last_def split: option.splits)

lemma set_min_fields:
  "(day_min (scalar_set_min s v (Some t)), day_mintime (scalar_set_min s v (Some t)))
     = lo_step (day_min s, day_mintime s) (v, t)"
  "day_max (scalar_set_min s v ts) = day_max s"
  "day_maxtime (scalar_set_min s v ts) = day_maxtime s"
  "history (scalar_set_min s v ts) = history s"
  "day_sum (scalar_set_min s v ts) = day_sum s"
  "nineam_sum (scalar_set_min s v ts) = nineam_sum s"
  "interval_sum (scalar_set_min s v ts) = interval_sum s"
  by (simp_all add: scalar_set_min_def split: option.splits)

lemma set_max_fields:
  "(day_max (scalar_set_max s v (Some t)), day_maxtime (scalar_set_max s v (Some t)))
     = hi_step (day_max s, day_maxtime s) (v, t)"
  "day_min (scalar_set_max s v ts) = day_min s"
  "day_mintime (scalar_set_max s v ts) = day_mintime s"
  "history (scalar_set_max s v ts) = history s"
  "day_sum (scalar_set_max s v ts) = day_sum s"
  "nineam_sum (scalar_set_max s v ts) = nineam_sum s"
  "interval_sum (scalar_set_max s v ts) = interval_sum s"
  by (simp_all add: scalar_set_max_def split: option.splits)

lemma scalar_add_history_ok:
  assumes "history s = Some h"
  shows "scalar_add_history s v (Some t) =
           Inr (s\<lparr> history_full :=
                     Some (min_list (List.map_filter snd (h @ [(v, Some t)])) \<le> t - MAX_AGE),
                   history :=
                     Some (filter (\<lambda>e. py_gt (snd e) (t - MAX_AGE)) (h @ [(v, Some t)])) \<rparr>)"
proof -
  have "List.map_filter snd (h @ [(v, Some t)]) = List.map_filter snd h @ [t]"
    by (simp add: List.map_filter_def)
  then obtain a as where eq: "List.map_filter snd (h @ [(v, Some t)]) = a # as"
    by (cases "List.map_filter snd h") auto
  show ?thesis using assms eq
    by (simp add: scalar_add_history_def ScalarBuffer_trim_history_def Let_def MAX_AGE_def)
qed

lemma scalar_add_history_hist:
  assumes "scalar_add_history s v (Some t) = Inr s'"
  shows "\<exists>h. history s' = Some (filter (\<lambda>e. py_gt (snd e) (t - MAX_AGE)) h)"
proof (cases "history s")
  case None
  with assms show ?thesis by (simp add: scalar_add_history_def)
next
  case (Some h)
  from scalar_add_history_ok[OF Some, of v t] assms
  have "s' = s\<lparr> history_full :=
                     Some (min_list (List.map_filter snd (h @ [(v, Some t)])) \<le> t - MAX_AGE),
                history :=
                     Some (filter (\<lambda>e. py_gt (snd e) (t - MAX_AGE)) (h @ [(v, Some t)])) \<rparr>"
    by simp
  then have "history s' = Some (filter (\<lambda>e. py_gt (snd e) (t - MAX_AGE)) (h @ [(v, Some t)]))"
    by simp
  then show ?thesis by blast
qed

lemma scalar_add_sums_ok:
  assumes "day_sum s = Some d" "nineam_sum s = Some n" "interval_sum s = Some i"
  shows "scalar_add_sums s v =
           Inr (s\<lparr> day_sum := Some (d + v), nineam_sum := Some (n + v),
                   interval_sum := Some (i + v) \<rparr>)"
  using assms by (simp add: scalar_add_sums_def)

lemma scalar_add_sums_hist:
  assumes "scalar_add_sums s v = Inr s'"
  shows "history s' = history s"
proof -
  from assms obtain d n i where
    "day_sum s = Some d" "nineam_sum s = Some n" "interval_sum s = Some i"
    by (cases "day_sum s"; cases "nineam_sum s"; cases "interval_sum s")
       (simp_all add: scalar_add_sums_def)
  from scalar_add_sums_ok[OF this, of v] assms
  have "s' = s\<lparr> day_sum := Some (d + v), nineam_sum := Some (n + v),
                   interval_sum := Some (i + v) \<rparr>" by simp
  then show ?thesis by simp
qed

lemma init_has_attrs: "has_attrs (ScalarBuffer_init None us hist sm) hist sm"
  by (simp add: has_attrs_def ScalarBuffer_init_def)

lemma init_units: "units (ScalarBuffer_init st us hist sm) = us"
  by (simp add: ScalarBuffer_init_def)

lemma scalar_add_value_total:
  assumes "has_attrs s hist sm"
  shows "\<exists>s'. ScalarBuffer_add_value s val (Some t) hilo hist sm = Inr s' \<and> has_attrs s' hist sm"
proof (cases val)
  case None
  with assms show ?thesis by (simp add: ScalarBuffer_add_value_def)
next
  case (Some v)
  define s2 where "s2 = (if hilo
      then scalar_set_max (scalar_set_min (scalar_set_last s v (Some t)) v (Some t)) v (Some t)
      else scalar_set_last s v (Some t))"
  have at: "has_attrs s2 hist sm"
    using assms unfolding s2_def has_attrs_def
    by (simp add: set_max_fields(4-7) set_min_fields(4-7) set_last_fields(5-8))
  have unf: "ScalarBuffer_add_value s val (Some t) hilo hist sm =
     (case (if hist then scalar_add_history s2 v (Some t) else Inr s2) of
        Inl e \<Rightarrow> Inl e
      | Inr s3 \<Rightarrow> if sm then scalar_add_sums s3 v else Inr s3)"
    by (simp add: ScalarBuffer_add_value_def Let_def s2_def Some)
  have "\<exists>s3. (if hist then scalar_add_history s2 v (Some t) else Inr s2) = Inr s3 \<and>
          has_attrs s3 hist sm"
  proof (cases hist)
    case False
    with at show ?thesis by simp
  next
    case True
    with at obtain h where h: "history s2 = Some h" by (auto simp: has_attrs_def)
    from scalar_add_history_ok[OF h, of v t]
    have "scalar_add_history s2 v (Some t) =
         Inr (s2\<lparr> history_full :=
                     Some (min_list (List.map_filter snd (h @ [(v, Some t)])) \<le> t - MAX_AGE),
                  history :=
                     Some (filter (\<lambda>e. py_gt (snd e) (t - MAX_AGE)) (h @ [(v, Some t)])) \<rparr>)" .
    then show ?thesis using True at by (simp add: has_attrs_def)
  qed
  then obtain s3 where s3: "(if hist then scalar_add_history s2 v (Some t) else Inr s2) = Inr s3"
    "has_attrs s3 hist sm" by blast
  have "\<exists>s4. (if sm then scalar_add_sums s3 v else Inr s3) = Inr s4 \<and> has_attrs s4 hist sm"
  proof (cases sm)
    case False
    with s3(2) show ?thesis by simp
  next
    case True
    with s3(2) obtain d n i where
      "day_sum s3 = Some d" "nineam_sum s3 = Some n" "interval_sum s3 = Some i"
      by (auto simp: has_attrs_def)
    from scalar_add_sums_ok[OF this, of v] True s3(2) show ?thesis
      by (simp add: has_attrs_def)
  qed
  then obtain s4 where s4: "(if sm then scalar_add_sums s3 v else Inr s3) = Inr s4"
    "has_attrs s4 hist sm" by blast
  have "ScalarBuffer_add_value s val (Some t) hilo hist sm = Inr s4"
    unfolding unf by (simp only: s3(1) s4(1) sum.case)
  with s4(2) show ?thesis by simp
qed

lemma add_value_Some:
  assumes "has_attrs s hist sm"
  shows "\<exists>s'. ScalarBuffer_add_value s (Some v) (Some t) True hist sm = Inr s' \<and>
           has_attrs s' hist sm \<and>
           (day_max s', day_maxtime s') = hi_step (day_max s, day_maxtime s) (v, t) \<and>
           (day_min s', day_mintime s') = lo_step (day_min s, day_mintime s) (v, t)"
proof -
  define s2 where "s2 = scalar_set_max (scalar_set_min (scalar_set_last s v (Some t)) v (Some t)) v (Some t)"
  have hi: "(day_max s2, day_maxtime s2) = hi_step (day_max s, day_maxtime s) (v, t)"
    unfolding s2_def by (simp only: set_max_fields set_min_fields set_last_fields)
  have lo: "(day_min s2, day_mintime s2) = lo_step (day_min s, day_mintime s) (v, t)"
    unfolding s2_def by (simp only: set_max_fields set_min_fields set_last_fields)
  have at: "has_attrs s2 hist sm"
    using assms unfolding s2_def has_attrs_def
    by (simp only: set_max_fields set_min_fields set_last_fields)
  have unf: "ScalarBuffer_add_value s (Some v) (Some t) True hist sm =
     (case (if hist then scalar_add_history s2 v (Some t) else Inr s2) of
        Inl e \<Rightarrow> Inl e
      | Inr s3 \<Rightarrow> if sm then scalar_add_sums s3 v else Inr s3)"
    by (simp add: ScalarBuffer_add_value_def Let_def s2_def)
  have "\<exists>s3. (if hist then scalar_add_history s2 v (Some t) else Inr s2) = Inr s3 \<and>
          has_attrs s3 hist sm \<and> day_max s3 = day_max s2 \<and> day_maxtime s3 = day_maxtime s2 \<and>
          day_min s3 = day_min s2 \<and> day_mintime s3 = day_mintime s2"
  proof (cases hist)
    case False
    with at show ?thesis by simp
  next
    case True
    with at obtain h where h: "history s2 = Some h" by (auto simp: has_attrs_def)
    from scalar_add_history_ok[OF h, of v t]
    have "scalar_add_history s2 v (Some t) =
         Inr (s2\<lparr> history_full :=
                     Some (min_list (List.map_filter snd (h @ [(v, Some t)])) \<le> t - MAX_AGE),
                  history :=
                     Some (filter (\<lambda>e. py_gt (snd e) (t - MAX_AGE)) (h @ [(v, Some t)])) \<rparr>)" .
    then show ?thesis using True at by (simp add: has_attrs_def)
  qed
  then obtain s3 where s3: "(if hist then scalar_add_history s2 v (Some t) else Inr s2) = Inr s3"
    "has_attrs s3 hist sm" "day_max s3 = day_max s2" "day_maxtime s3 = day_maxtime s2"
    "day_min s3 = day_min s2" "day_mintime s3 = day_mintime s2" by blast
  have "\<exists>s4. (if sm then scalar_add_sums s3 v else Inr s3) = Inr s4 \<and>
          has_attrs s4 hist sm \<and> day_max s4 = day_max s3 \<and> day_maxtime s4 = day_maxtime s3 \<and>
          day_min s4 = day_min s3 \<and> day_mintime s4 = day_mintime s3"
  proof (cases sm)
    case False
    with s3(2) show ?thesis by simp
  next
    case True
    with s3(2) obtain d n i where
      "day_sum s3 = Some d" "nineam_sum s3 = Some n" "interval_sum s3 = Some i"
      by (auto simp: has_attrs_def)
    from scalar_add_sums_ok[OF this, of v] True s3(2) show ?thesis
      by (simp add: has_attrs_def)
  qed
  then obtain s4 where s4: "(if sm then scalar_add_sums s3 v else Inr s3) = Inr s4"
    "has_attrs s4 hist sm" "day_max s4 = day_max s3" "day_maxtime s4 = day_maxtime s3"
    "day_min s4 = day_min s3" "day_mintime s4 = day_mintime s3" by blast
  have "ScalarBuffer_add_value s (Some v) (Some t) True hist sm = Inr s4"
    unfolding unf by (simp only: s3(1) s4(1) sum.case)
  with s4 s3 hi lo show ?thesis by simp
qed

lemma add_values_fold:
  "has_attrs s hist sm \<Longrightarrow>
   \<exists>s'. add_values s xs hist sm = Inr s' \<and> has_attrs s' hist sm \<and>
        (day_max s', day_maxtime s') = fold (\<lambda>x a. hi_step a x) xs (day_max s, day_maxtime s) \<and>
        (day_min s', day_mintime s') = fold (\<lambda>x a. lo_step a x) xs (day_min s, day_mintime s)"
proof (induction xs arbitrary: s)
  case Nil
  then show ?case by simp
next
  case (Cons x xs)
  from add_value_Some[OF Cons.prems, of "fst x" "snd x"] obtain s1 where
    s1: "ScalarBuffer_add_value s (Some (fst x)) (Some (snd x)) True hist sm = Inr s1"
        "has_attrs s1 hist sm"
        "(day_max s1, day_maxtime s1) = hi_step (day_max s, day_maxtime s) x"
        "(day_min s1, day_mintime s1) = lo_step (day_min s, day_mintime s) x"
    by auto
  from Cons.IH[OF s1(2)] obtain s' where
    s': "add_values s1 xs hist sm = Inr s'" "has_attrs s' hist sm"
        "(day_max s', day_maxtime s') = fold (\<lambda>x a. hi_step a x) xs (day_max s1, day_maxtime s1)"
        "(day_min s', day_mintime s') = fold (\<lambda>x a. lo_step a x) xs (day_min s1, day_mintime s1)"
    by blast
  have "add_values s (x # xs) hist sm = Inr s'" using s1(1) s'(1) by simp
  moreover have "(day_max s', day_maxtime s') =
      fold (\<lambda>x a. hi_step a x) (x # xs) (day_max s, day_maxtime s)"
    using s'(3) s1(3) by simp
  moreover have "(day_min s', day_mintime s') =
      fold (\<lambda>x a. lo_step a x) (x # xs) (day_min s, day_mintime s)"
    using s'(4) s1(4) by simp
  ultimately show ?case using s'(2) by blast
qed

text \<open>
  The fold of the strict comparison over a non-empty list of samples ends at the first
  sample that attains the extreme value.
\<close>

lemma fold_hi_first:
  "xs \<noteq> [] \<Longrightarrow>
   \<exists>i<length xs. fold (\<lambda>x a. hi_step a x) xs (None, None) = (Some (fst (xs ! i)), Some (snd (xs ! i))) \<and>
      (\<forall>j<i. fst (xs ! j) < fst (xs ! i)) \<and> (\<forall>j<length xs. fst (xs ! j) \<le> fst (xs ! i))"
proof (induction xs rule: rev_induct)
  case Nil
  then show ?case by simp
next
  case (snoc x xs)
  show ?case
  proof (cases "xs = []")
    case True
    then show ?thesis by (cases x) simp
  next
    case False
    from snoc.IH[OF False] obtain i where i: "i < length xs"
      "fold (\<lambda>x a. hi_step a x) xs (None, None) = (Some (fst (xs ! i)), Some (snd (xs ! i)))"
      "\<forall>j<i. fst (xs ! j) < fst (xs ! i)" "\<forall>j<length xs. fst (xs ! j) \<le> fst (xs ! i)"
      by blast
    show ?thesis
    proof (cases "fst x > fst (xs ! i)")
      case True
      have f: "fold (\<lambda>x a. hi_step a x) (xs @ [x]) (None, None) = (Some (fst x), Some (snd x))"
        using i(2) True by (cases x) simp
      have "\<forall>j<length xs. fst (xs ! j) < fst x" using i(4) True by fastforce
      then show ?thesis using f
        by (intro exI[of _ "length xs"]) (auto simp: nth_append less_Suc_eq)
    next
      case False
      have f: "fold (\<lambda>x a. hi_step a x) (xs @ [x]) (None, None) = (Some (fst (xs ! i)), Some (snd (xs ! i)))"
        using i(2) False by (cases x) simp
      show ?thesis using f i False
        by (intro exI[of _ i]) (auto simp: nth_append less_Suc_eq)
    qed
  qed
qed

lemma fold_lo_first:
  "xs \<noteq> [] \<Longrightarrow>
   \<exists>i<length xs. fold (\<lambda>x a. lo_step a x) xs (None, None) = (Some (fst (xs ! i)), Some (snd (xs ! i))) \<and>
      (\<forall>j<i. fst (xs ! i) < fst (xs ! j)) \<and> (\<forall>j<length xs. fst (xs ! i) \<le> fst (xs ! j))"
proof (induction xs rule: rev_induct)
  case Nil
  then show ?case by simp
next
  case (snoc x xs)
  show ?case
  proof (cases "xs = []")
    case True
    then show ?thesis by (cases x) simp
  next
    case False
    from snoc.IH[OF False] obtain i where i: "i < length xs"
      "fold (\<lambda>x a. lo_step a x) xs (None, None) = (Some (fst (xs ! i)), Some (snd (xs ! i)))"
      "\<forall>j<i. fst (xs ! i) < fst (xs ! j)" "\<forall>j<length xs. fst (xs ! i) \<le> fst (xs ! j)"
      by blast
    show ?thesis
    proof (cases "fst x < fst (xs ! i)")
      case True
      have f: "fold (\<lambda>x a. lo_step a x) (xs @ [x]) (None, None) = (Some (fst x), Some (snd x))"
        using i(2) True by (cases x) simp
      have "\<forall>j<length xs. fst x < fst (xs ! j)" using i(4) True by fastforce
      then show ?thesis using f
        by (intro exI[of _ "length xs"]) (auto simp: nth_append less_Suc_eq)
    next
      case False
      have f: "fold (\<lambda>x a. lo_step a x) (xs @ [x]) (None, None) = (Some (fst (xs ! i)), Some (snd (xs ! i)))"
        using i(2) False by (cases x) simp
      show ?thesis using f i False
        by (intro exI[of _ i]) (auto simp: nth_append less_Suc_eq)
    qed
  qed
qed

text \<open>
  Claim C1. Starting from a buffer cleared by \<open>day_reset\<close>, any non-empty sequence of
  non-null samples fed through \<open>add_value\<close> with hilo tracking is accepted without an
  exception, and afterwards \<open>day_max\<close> and \<open>day_min\<close> are the values of two of the
  samples, \<open>i\<close> and \<open>k\<close>, with \<open>day_maxtime\<close> and \<open>day_mintime\<close> their timestamps; every
  sample lies between \<open>day_min\<close> and \<open>day_max\<close>; and every sample before \<open>i\<close> is strictly
  smaller than \<open>day_max\<close>, every sample before \<open>k\<close> strictly larger than \<open>day_min\<close>: the
  recorded times are those of the first sample attaining each extreme.
\<close>

theorem C1_hilo_envelope:
  assumes "xs \<noteq> []" and "has_attrs s hist sm"
  shows "\<exists>s' i k. add_values (ScalarBuffer_day_reset s) xs hist sm = Inr s' \<and>
           i < length xs \<and> k < length xs \<and>
           day_max s' = Some (fst (xs ! i)) \<and> day_maxtime s' = Some (snd (xs ! i)) \<and>
           (\<forall>j<i. fst (xs ! j) < fst (xs ! i)) \<and>
           day_min s' = Some (fst (xs ! k)) \<and> day_mintime s' = Some (snd (xs ! k)) \<and>
           (\<forall>j<k. fst (xs ! k) < fst (xs ! j)) \<and>
           (\<forall>j<length xs. fst (xs ! k) \<le> fst (xs ! j) \<and> fst (xs ! j) \<le> fst (xs ! i))"
proof -
  have at: "has_attrs (ScalarBuffer_day_reset s) hist sm"
    using assms(2) by (simp add: has_attrs_def ScalarBuffer_day_reset_def)
  have r: "day_max (ScalarBuffer_day_reset s) = None" "day_maxtime (ScalarBuffer_day_reset s) = None"
    "day_min (ScalarBuffer_day_reset s) = None" "day_mintime (ScalarBuffer_day_reset s) = None"
    by (simp_all add: ScalarBuffer_day_reset_def)
  from add_values_fold[OF at, of xs] obtain s' where
    s': "add_values (ScalarBuffer_day_reset s) xs hist sm = Inr s'"
        "(day_max s', day_maxtime s') = fold (\<lambda>x a. hi_step a x) xs (None, None)"
        "(day_min s', day_mintime s') = fold (\<lambda>x a. lo_step a x) xs (None, None)"
    unfolding r by blast
  from fold_hi_first[OF assms(1)] obtain i where i: "i < length xs"
    "fold (\<lambda>x a. hi_step a x) xs (None, None) = (Some (fst (xs ! i)), Some (snd (xs ! i)))"
    "\<forall>j<i. fst (xs ! j) < fst (xs ! i)" "\<forall>j<length xs. fst (xs ! j) \<le> fst (xs ! i)"
    by blast
  from fold_lo_first[OF assms(1)] obtain k where k: "k < length xs"
    "fold (\<lambda>x a. lo_step a x) xs (None, None) = (Some (fst (xs ! k)), Some (snd (xs ! k)))"
    "\<forall>j<k. fst (xs ! k) < fst (xs ! j)" "\<forall>j<length xs. fst (xs ! k) \<le> fst (xs ! j)"
    by blast
  from s'(2) i(2) have mx: "day_max s' = Some (fst (xs ! i))" "day_maxtime s' = Some (snd (xs ! i))"
    by simp_all
  from s'(3) k(2) have mn: "day_min s' = Some (fst (xs ! k))" "day_mintime s' = Some (snd (xs ! k))"
    by simp_all
  show ?thesis
    using s'(1) i(1,3,4) k(1,3,4) mx mn by blast
qed

text \<open>
  The samples 15 at 2000, 5 at 3000 and 12 at 4000: the maximum 15 is recorded with time
  2000 and the minimum 5 with time 3000.
\<close>

theorem C1_hilo_envelope_witness:
  "\<exists>s'. add_values (ScalarBuffer_day_reset (ScalarBuffer_init None (Some 16) True True))
               scenario_samples True True = Inr s' \<and>
        day_max s' = Some 15 \<and> day_maxtime s' = Some 2000 \<and>
        day_min s' = Some 5 \<and> day_mintime s' = Some 3000"
proof -
  have ne: "scenario_samples \<noteq> []" by (simp add: scenario_samples_def)
  have at: "has_attrs (ScalarBuffer_init None (Some 16) True True) True True"
    by (simp add: has_attrs_def ScalarBuffer_init_def)
  from C1_hilo_envelope[OF ne at] obtain s' i k where
    r: "add_values (ScalarBuffer_day_reset (ScalarBuffer_init None (Some 16) True True))
          scenario_samples True True = Inr s'"
    and i: "i < length scenario_samples" and k: "k < length scenario_samples"
    and mx: "day_max s' = Some (fst (scenario_samples ! i))"
            "day_maxtime s' = Some (snd (scenario_samples ! i))"
    and mn: "day_min s' = Some (fst (scenario_samples ! k))"
            "day_mintime s' = Some (snd (scenario_samples ! k))"
    and bd: "\<forall>j<length scenario_samples.
               fst (scenario_samples ! k) \<le> fst (scenario_samples ! j) \<and>
               fst (scenario_samples ! j) \<le> fst (scenario_samples ! i)"
    by (elim exE conjE) (rule that)
  from i have ic: "i = 0 \<or> i = Suc 0 \<or> i = Suc (Suc 0)"
    by (auto simp: scenario_samples_def less_Suc_eq)
  from k have kc: "k = 0 \<or> k = Suc 0 \<or> k = Suc (Suc 0)"
    by (auto simp: scenario_samples_def less_Suc_eq)
  from bd[rule_format, of 0] have b0: "fst (scenario_samples ! 0) \<le> fst (scenario_samples ! i)"
    by (simp add: scenario_samples_def)
  from bd[rule_format, of "Suc 0"]
  have b1: "fst (scenario_samples ! k) \<le> fst (scenario_samples ! Suc 0)"
    by (simp add: scenario_samples_def)
  have i0: "i = 0" using ic b0 by (auto simp: scenario_samples_def)
  have k1: "k = Suc 0" using kc b1 by (auto simp: scenario_samples_def)
  show ?thesis using r mx mn by (simp add: i0 k1 scenario_samples_def)
qed

section \<open>Buffer.nineam_reset\<close>

text \<open>
  Claim C2. \<open>Buffer.nineam_reset\<close> does not zero any \<open>nineam_sum\<close>: on every Buffer, also
  one that holds \<open>rain\<close> and \<open>wind\<close>, it raises \<open>NameError\<close>, because its loop iterates the
  unbound name \<open>SUM\<close> (the sibling \<open>start_of_day_reset\<close> iterates \<open>self.MANIFEST\<close>).
\<close>

theorem C2_nineam_reset_raises: "Buffer_nineam_reset b = Inl NameError"
  by (simp add: Buffer_nineam_reset_def)

section \<open>Buffer.add_wind_value\<close>

text \<open>
  With its attributes present a VectorBuffer accepts every value at a non-null time, and
  keeps the attributes.
\<close>

lemma init_vector_attrs: "vector_attrs (VectorBuffer_init None us True True)"
  by (simp add: vector_attrs_def VectorBuffer_init_def)

lemma init_v_units: "v_units (VectorBuffer_init st us hist sm) = us"
  by (simp add: VectorBuffer_init_def)

lemma vector_set_min_attrs: "vector_attrs (vector_set_min s w ts) = vector_attrs s"
  by (simp add: vector_set_min_def vector_attrs_def split: option.splits)

lemma vector_set_max_attrs: "vector_attrs (vector_set_max s w wd ts) = vector_attrs s"
  by (simp add: vector_set_max_def vector_attrs_def split: option.splits)

lemma vector_set_last_attrs: "vector_attrs (vector_set_last s w wd ts) = vector_attrs s"
  by (simp add: vector_set_last_def vector_attrs_def split: option.splits)

lemma vector_add_history_ok:
  assumes "v_history s = Some h"
  shows "vector_add_history M s w d (Some t) =
           Inr (s\<lparr> v_history_full :=
                     Some (min_list (List.map_filter snd
                        (h @ [((w, m_cos M (m_radians M (90 - d)),
                                   m_sin M (m_radians M (90 - d))), Some t)])) \<le> t - MAX_AGE),
                   v_history :=
                     Some (filter (\<lambda>e. py_gt (snd e) (t - MAX_AGE))
                        (h @ [((w, m_cos M (m_radians M (90 - d)),
                                   m_sin M (m_radians M (90 - d))), Some t)])) \<rparr>)"
proof -
  let ?e = "((w, m_cos M (m_radians M (90 - d)), m_sin M (m_radians M (90 - d))), Some t)"
  have "List.map_filter snd (h @ [?e]) = List.map_filter snd h @ [t]"
    by (simp add: List.map_filter_def)
  then obtain a as where eq: "List.map_filter snd (h @ [?e]) = a # as"
    by (cases "List.map_filter snd h") auto
  show ?thesis using assms eq
    by (simp add: vector_add_history_def VectorBuffer_trim_history_def Let_def MAX_AGE_def)
qed

lemma vector_add_history_attrs:
  assumes "vector_attrs s"
  shows "\<exists>s'. vector_add_history M s w d (Some t) = Inr s' \<and> vector_attrs s'"
proof -
  from assms obtain h where h: "v_history s = Some h" by (auto simp: vector_attrs_def)
  from vector_add_history_ok[OF h, of M w d t] assms show ?thesis
    by (simp add: vector_attrs_def)
qed

lemma vector_add_sumtime_attrs:
  assumes "vector_attrs s"
  shows "\<exists>s'. vector_add_sumtime s (Some t) = Inr s' \<and> vector_attrs s'"
proof -
  from assms obtain st where st: "v_sumtime s = Some st" by (auto simp: vector_attrs_def)
  show ?thesis
  proof (cases "v_lasttime s")
    case None
    with assms show ?thesis by (simp add: vector_add_sumtime_def)
  next
    case (Some l)
    with assms st show ?thesis by (simp add: vector_add_sumtime_def vector_attrs_def)
  qed
qed

lemma vector_add_xysum_attrs:
  assumes "vector_attrs s"
  shows "\<exists>s'. vector_add_xysum M s w wd = Inr s' \<and> vector_attrs s'"
proof (cases wd)
  case None
  with assms show ?thesis by (simp add: vector_add_xysum_def)
next
  case (Some d)
  from assms obtain x y where "v_day_xsum s = Some x" "v_day_ysum s = Some y"
    by (auto simp: vector_attrs_def)
  with assms Some show ?thesis by (simp add: vector_add_xysum_def vector_attrs_def)
qed

lemma vector_add_sums_attrs:
  assumes "vector_attrs s"
  shows "\<exists>s'. vector_add_sums M s w wd (Some t) = Inr s' \<and> vector_attrs s'"
proof -
  from assms obtain d where d: "v_day_sum s = Some d" by (auto simp: vector_attrs_def)
  from assms have "vector_attrs (s\<lparr> v_day_sum := Some (d + w) \<rparr>)"
    by (simp add: vector_attrs_def)
  from vector_add_sumtime_attrs[OF this, of t] obtain s1 where
    s1: "vector_add_sumtime (s\<lparr> v_day_sum := Some (d + w) \<rparr>) (Some t) = Inr s1"
        "vector_attrs s1" by blast
  from vector_add_xysum_attrs[OF s1(2), of M w wd] obtain s2 where
    s2: "vector_add_xysum M s1 w wd = Inr s2" "vector_attrs s2" by blast
  have "vector_add_sums M s w wd (Some t) = Inr s2"
    by (simp add: vector_add_sums_def d s1(1) s2(1))
  with s2(2) show ?thesis by simp
qed

lemma vector_add_value_total:
  assumes "vector_attrs s"
  shows "\<exists>s'. VectorBuffer_add_value M s val (Some t) hilo hist sm = Inr s' \<and> vector_attrs s'"
proof (cases "fst val")
  case None
  with assms show ?thesis by (simp add: VectorBuffer_add_value_def)
next
  case (Some w)
  define s1 where "s1 = (if hilo
      then vector_set_max (vector_set_min s w (Some t)) w (snd val) (Some t) else s)"
  have a1: "vector_attrs s1"
    using assms unfolding s1_def by (simp add: vector_set_max_attrs vector_set_min_attrs)
  define r2 where "r2 = (case snd val of
                      None \<Rightarrow> Inr s1
                    | Some d \<Rightarrow> if hist then vector_add_history M s1 w d (Some t) else Inr s1)"
  have unf: "VectorBuffer_add_value M s val (Some t) hilo hist sm =
     (case r2 of
        Inl e \<Rightarrow> Inl e
      | Inr s2 \<Rightarrow>
          (case (if sm then vector_add_sums M s2 w (snd val) (Some t) else Inr s2) of
             Inl e \<Rightarrow> Inl e
           | Inr s3 \<Rightarrow> Inr (vector_set_last s3 w (snd val) (Some t))))"
    unfolding VectorBuffer_add_value_def Let_def s1_def r2_def Some by simp
  have "\<exists>s2. r2 = Inr s2 \<and> vector_attrs s2"
  proof (cases "snd val")
    case None
    with a1 show ?thesis by (simp add: r2_def)
  next
    case d: (Some d)
    show ?thesis
    proof (cases hist)
      case True
      from vector_add_history_attrs[OF a1, of M w d t] d True show ?thesis
        by (simp add: r2_def)
    next
      case False
      with a1 d show ?thesis by (simp add: r2_def)
    qed
  qed
  then obtain s2 where s2: "r2 = Inr s2" "vector_attrs s2" by blast
  have "\<exists>s3. (if sm then vector_add_sums M s2 w (snd val) (Some t) else Inr s2) = Inr s3 \<and>
             vector_attrs s3"
  proof (cases sm)
    case True
    from vector_add_sums_attrs[OF s2(2), of M w "snd val" t] True show ?thesis by simp
  next
    case False
    with s2(2) show ?thesis by simp
  qed
  then obtain s3 where
    s3: "(if sm then vector_add_sums M s2 w (snd val) (Some t) else Inr s2) = Inr s3"
        "vector_attrs s3" by blast
  have "VectorBuffer_add_value M s val (Some t) hilo hist sm =
          Inr (vector_set_last s3 w (snd val) (Some t))"
    unfolding unf by (simp only: s2(1) s3(1) sum.case)
  moreover have "vector_attrs (vector_set_last s3 w (snd val) (Some t))"
    using s3(2) by (simp add: vector_set_last_attrs)
  ultimately show ?thesis by simp
qed

text \<open>
  The three steps of \<open>add_wind_value\<close>: the scalar \<open>windSpeed\<close> is stored, the windrun
  block updates \<open>windrun\<close> and \<open>last_windSpeed_ts\<close>, the vector \<open>wind\<close> is stored.
\<close>

lemma Buffer_add_value_Scalar:
  assumes "map_of p ''usUnits'' = Some us" and "map_of p ''dateTime'' = Some ts"
    and "map_of p name = Some pv" and "obs b name = Some (Scalar s)"
  shows "Buffer_add_value cs b p name hilo hist sm =
     (case ScalarBuffer_add_value s (if units s = us then pv else cs name us pv (units s))
             ts hilo hist sm of
        Inl e \<Rightarrow> Inl e
      | Inr s' \<Rightarrow> Inr (b\<lparr> obs := (obs b)(name \<mapsto> Scalar s') \<rparr>))"
  using assms by (simp add: Buffer_add_value_def getitem_def Let_def)

lemma Buffer_add_value_new:
  assumes "map_of p ''usUnits'' = Some us" and "map_of p ''dateTime'' = Some ts"
    and "map_of p name = Some pv" and "obs b name = None" and "name \<noteq> ''wind''"
  shows "Buffer_add_value cs b p name hilo hist sm =
     (case ScalarBuffer_add_value (ScalarBuffer_init None us hist sm) pv ts hilo hist sm of
        Inl e \<Rightarrow> Inl e
      | Inr s' \<Rightarrow> Inr (b\<lparr> obs := (obs b)(name \<mapsto> Scalar s') \<rparr>))"
  using assms by (simp add: Buffer_add_value_def getitem_def Let_def init_units)

lemma Buffer_add_value_ok:
  assumes us: "map_of p ''usUnits'' = Some us"
    and dt: "map_of p ''dateTime'' = Some (Some t)"
    and pv: "map_of p ''windSpeed'' = Some pv"
    and en: "case obs b ''windSpeed'' of
               None \<Rightarrow> True
             | Some (Scalar s) \<Rightarrow> has_attrs s hist sm
             | Some (Vector v) \<Rightarrow> False"
  shows "\<exists>s'. Buffer_add_value cs b p ''windSpeed'' hilo hist sm =
                Inr (b\<lparr> obs := (obs b)(''windSpeed'' \<mapsto> Scalar s') \<rparr>) \<and>
              has_attrs s' hist sm"
proof (cases "obs b ''windSpeed''")
  case None
  have ne: "''windSpeed'' \<noteq> ''wind''" by simp
  from scalar_add_value_total[OF init_has_attrs, of us hist sm pv t hilo] obtain s' where
    s': "ScalarBuffer_add_value (ScalarBuffer_init None us hist sm) pv (Some t) hilo hist sm
           = Inr s'" "has_attrs s' hist sm"
    by blast
  have "Buffer_add_value cs b p ''windSpeed'' hilo hist sm =
          Inr (b\<lparr> obs := (obs b)(''windSpeed'' \<mapsto> Scalar s') \<rparr>)"
    unfolding Buffer_add_value_new[OF us dt pv None ne] by (simp only: s'(1) sum.case)
  with s'(2) show ?thesis by blast
next
  case (Some e)
  with en obtain s where s: "obs b ''windSpeed'' = Some (Scalar s)" "has_attrs s hist sm"
    by (cases e) simp_all
  define val where "val = (if units s = us then pv else cs ''windSpeed'' us pv (units s))"
  from scalar_add_value_total[OF s(2), of val t hilo] obtain s' where
    s': "ScalarBuffer_add_value s val (Some t) hilo hist sm = Inr s'" "has_attrs s' hist sm"
    by blast
  have "Buffer_add_value cs b p ''windSpeed'' hilo hist sm =
          Inr (b\<lparr> obs := (obs b)(''windSpeed'' \<mapsto> Scalar s') \<rparr>)"
    unfolding Buffer_add_value_Scalar[OF us dt pv s(1)] val_def[symmetric]
    by (simp only: s'(1) sum.case)
  with s'(2) show ?thesis by blast
qed

lemma update_windrun_eq:
  assumes "map_of p ''dateTime'' = Some (Some t)" and "map_of p ''windSpeed'' = Some ws"
  shows "update_windrun b p =
           Inr (b\<lparr> windrun := (case (ws, last_windSpeed_ts b) of
                                 (Some v, Some t0) \<Rightarrow> windrun b + v * (t - t0) / 1000
                               | _ \<Rightarrow> windrun b),
                   last_windSpeed_ts := Some t \<rparr>)"
  using assms by (simp add: update_windrun_def getitem_def split: option.splits)

lemma add_wind_vector_Vector:
  assumes "map_of p ''usUnits'' = Some us" and "map_of p ''dateTime'' = Some ts"
    and "map_of p ''windSpeed'' = Some pv" and "obs b ''wind'' = Some (Vector v)"
  shows "add_wind_vector M cs b p =
     (case VectorBuffer_add_value M v
             (if v_units v = us then pv else cs ''windSpeed'' us pv (v_units v),
              get_or_none p ''windDir'') ts True True True of
        Inl e \<Rightarrow> Inl e
      | Inr v' \<Rightarrow> Inr (b\<lparr> obs := (obs b)(''wind'' \<mapsto> Vector v') \<rparr>))"
  using assms by (simp add: add_wind_vector_def getitem_def Let_def)

lemma add_wind_vector_new:
  assumes "map_of p ''usUnits'' = Some us" and "map_of p ''dateTime'' = Some ts"
    and "map_of p ''windSpeed'' = Some pv" and "obs b ''wind'' = None"
  shows "add_wind_vector M cs b p =
     (case VectorBuffer_add_value M (VectorBuffer_init None us True True)
             (pv, get_or_none p ''windDir'') ts True True True of
        Inl e \<Rightarrow> Inl e
      | Inr v' \<Rightarrow> Inr (b\<lparr> obs := (obs b)(''wind'' \<mapsto> Vector v') \<rparr>))"
  using assms by (simp add: add_wind_vector_def getitem_def Let_def init_v_units)

lemma add_wind_vector_ok:
  assumes us: "map_of p ''usUnits'' = Some us"
    and dt: "map_of p ''dateTime'' = Some (Some t)"
    and pv: "map_of p ''windSpeed'' = Some pv"
    and en: "case obs b ''wind'' of
               None \<Rightarrow> True
             | Some (Scalar s) \<Rightarrow> False
             | Some (Vector v) \<Rightarrow> vector_attrs v"
  shows "\<exists>v'. add_wind_vector M cs b p = Inr (b\<lparr> obs := (obs b)(''wind'' \<mapsto> Vector v') \<rparr>) \<and>
              vector_attrs v'"
proof (cases "obs b ''wind''")
  case None
  from vector_add_value_total[OF init_vector_attrs,
      of M us "(pv, get_or_none p ''windDir'')" t True True True]
  obtain v' where
    v': "VectorBuffer_add_value M (VectorBuffer_init None us True True)
           (pv, get_or_none p ''windDir'') (Some t) True True True = Inr v'"
        "vector_attrs v'"
    by blast
  have "add_wind_vector M cs b p = Inr (b\<lparr> obs := (obs b)(''wind'' \<mapsto> Vector v') \<rparr>)"
    unfolding add_wind_vector_new[OF us dt pv None] by (simp only: v'(1) sum.case)
  with v'(2) show ?thesis by blast
next
  case (Some e)
  with en obtain v where v: "obs b ''wind'' = Some (Vector v)" "vector_attrs v"
    by (cases e) simp_all
  define val where "val = (if v_units v = us then pv else cs ''windSpeed'' us pv (v_units v))"
  from vector_add_value_total[OF v(2), of M "(val, get_or_none p ''windDir'')" t True True True]
  obtain v' where
    v': "VectorBuffer_add_value M v (val, get_or_none p ''windDir'') (Some t) True True True
           = Inr v'" "vector_attrs v'"
    by blast
  have "add_wind_vector M cs b p = Inr (b\<lparr> obs := (obs b)(''wind'' \<mapsto> Vector v') \<rparr>)"
    unfolding add_wind_vector_Vector[OF us dt pv v(1)] val_def[symmetric]
    by (simp only: v'(1) sum.case)
  with v'(2) show ?thesis by blast
qed

lemma add_wind_value_windrun:
  assumes us: "map_of p ''usUnits'' = Some us"
    and dt: "map_of p ''dateTime'' = Some (Some t)"
    and ws: "map_of p ''windSpeed'' = Some ws"
    and rd: "wind_ready b hist sm"
  shows "\<exists>b'. Buffer_add_wind_value M cs b p ''windSpeed'' hilo hist sm = Inr b' \<and>
              windrun b' = (case (ws, last_windSpeed_ts b) of
                              (Some v, Some t0) \<Rightarrow> windrun b + v * (t - t0) / 1000
                            | _ \<Rightarrow> windrun b) \<and>
              last_windSpeed_ts b' = Some t \<and> wind_ready b' hist sm"
proof -
  from rd have en1: "case obs b ''windSpeed'' of
               None \<Rightarrow> True
             | Some (Scalar s) \<Rightarrow> has_attrs s hist sm
             | Some (Vector v) \<Rightarrow> False"
    by (simp add: wind_ready_def)
  from Buffer_add_value_ok[OF us dt ws en1, of cs hilo] obtain s' where
    s': "Buffer_add_value cs b p ''windSpeed'' hilo hist sm =
           Inr (b\<lparr> obs := (obs b)(''windSpeed'' \<mapsto> Scalar s') \<rparr>)"
        "has_attrs s' hist sm" by blast
  define b1 where "b1 = b\<lparr> obs := (obs b)(''windSpeed'' \<mapsto> Scalar s') \<rparr>"
  define b2 where "b2 = b1\<lparr> windrun := (case (ws, last_windSpeed_ts b1) of
                                 (Some v, Some t0) \<Rightarrow> windrun b1 + v * (t - t0) / 1000
                               | _ \<Rightarrow> windrun b1),
                   last_windSpeed_ts := Some t \<rparr>"
  have u: "update_windrun b1 p = Inr b2"
    unfolding b2_def by (rule update_windrun_eq[OF dt ws])
  have o2: "obs b2 = (obs b)(''windSpeed'' \<mapsto> Scalar s')"
    by (simp add: b2_def b1_def)
  have w2: "windrun b2 = (case (ws, last_windSpeed_ts b) of
                              (Some v, Some t0) \<Rightarrow> windrun b + v * (t - t0) / 1000
                            | _ \<Rightarrow> windrun b)"
    by (simp add: b2_def b1_def split: option.splits)
  have l2: "last_windSpeed_ts b2 = Some t"
    by (simp add: b2_def)
  from rd have en2: "case obs b2 ''wind'' of
               None \<Rightarrow> True
             | Some (Scalar s) \<Rightarrow> False
             | Some (Vector v) \<Rightarrow> vector_attrs v"
    by (simp add: wind_ready_def o2)
  from add_wind_vector_ok[OF us dt ws en2, of M cs] obtain v' where
    v': "add_wind_vector M cs b2 p = Inr (b2\<lparr> obs := (obs b2)(''wind'' \<mapsto> Vector v') \<rparr>)"
        "vector_attrs v'" by blast
  define b3 where "b3 = b2\<lparr> obs := (obs b2)(''wind'' \<mapsto> Vector v') \<rparr>"
  have r: "Buffer_add_wind_value M cs b p ''windSpeed'' hilo hist sm = Inr b3"
    unfolding Buffer_add_wind_value_def s'(1)
    by (simp only: sum.case u v'(1) b1_def[symmetric] b3_def[symmetric])
  have w3: "windrun b3 = windrun b2" and l3: "last_windSpeed_ts b3 = last_windSpeed_ts b2"
    by (simp_all add: b3_def)
  have "wind_ready b3 hist sm"
    using s'(2) v'(2) by (simp add: wind_ready_def b3_def o2)
  with r w2 l2 w3 l3 show ?thesis by simp
qed

lemma add_packet_windSpeed:
  assumes "map_of p ''dateTime'' = Some (Some t)"
    and "filter (\<lambda>f. f \<in> set MANIFEST) (map fst p) = [''windSpeed'']"
  shows "Buffer_add_packet M cs b p =
           Buffer_add_wind_value M cs b p ''windSpeed'' True True False"
proof -
  have m: "''windSpeed'' \<in> set HILO_MANIFEST" "''windSpeed'' \<in> set HIST_MANIFEST"
    "''windSpeed'' \<notin> set SUM_MANIFEST"
    by (simp_all add: HILO_MANIFEST_def HIST_MANIFEST_def SUM_MANIFEST_def)
  show ?thesis
    unfolding Buffer_add_packet_def getitem_def assms
    by (cases "Buffer_add_wind_value M cs b p ''windSpeed'' True True False")
       (simp_all add: m)
qed

text \<open>
  Claim C3, as amended. For a packet with a unit system, a non-null timestamp \<open>t\<close> and a
  \<open>windSpeed\<close> field \<open>ws\<close>, on a Buffer that is ready for it, \<open>add_wind_value\<close> returns
  without an exception. When the speed is a number \<open>v\<close> and a previous timestamp \<open>t0\<close> is
  recorded, \<open>windrun\<close> grows by the speed of the packet being added times the elapsed
  time, \<open>v * (t - t0) / 1000\<close>; when no previous timestamp is recorded (or the speed is
  null) \<open>windrun\<close> is unchanged. In every case the packet's timestamp becomes the
  recorded one and the Buffer stays ready for the next packet.
\<close>

theorem C3_windrun_increment:
  assumes "map_of p ''usUnits'' = Some us"
    and "map_of p ''dateTime'' = Some (Some t)"
    and "map_of p ''windSpeed'' = Some ws"
    and "wind_ready b hist sm"
  shows "\<exists>b'. Buffer_add_wind_value M cs b p ''windSpeed'' hilo hist sm = Inr b' \<and>
              windrun b' = (case (ws, last_windSpeed_ts b) of
                              (Some v, Some t0) \<Rightarrow> windrun b + v * (t - t0) / 1000
                            | _ \<Rightarrow> windrun b) \<and>
              last_windSpeed_ts b' = Some t \<and> wind_ready b' hist sm"
  using assms by (rule add_wind_value_windrun)

text \<open>
  The two packets of the example, added to the fresh Buffer one after the other: the
  first leaves \<open>windrun\<close> at 0 and records time 0, the second adds 20 * 3600 / 1000 = 72.
\<close>

theorem C3_windrun_increment_witness:
  "\<exists>b1 b2.
     Buffer_add_wind_value no_math same_units fresh_buffer first_packet ''windSpeed''
       True True False = Inr b1 \<and>
     windrun b1 = 0 \<and> last_windSpeed_ts b1 = Some 0 \<and>
     Buffer_add_wind_value no_math same_units b1 second_packet ''windSpeed''
       True True False = Inr b2 \<and>
     windrun b2 = 72 \<and> last_windSpeed_ts b2 = Some 3600"
proof -
  have r0: "wind_ready fresh_buffer True False"
    by (simp add: wind_ready_def fresh_buffer_def)
  have p1: "map_of first_packet ''usUnits'' = Some (Some 16)"
    "map_of first_packet ''dateTime'' = Some (Some 0)"
    "map_of first_packet ''windSpeed'' = Some (Some 10)"
    by (simp_all add: first_packet_def)
  have p2: "map_of second_packet ''usUnits'' = Some (Some 16)"
    "map_of second_packet ''dateTime'' = Some (Some 3600)"
    "map_of second_packet ''windSpeed'' = Some (Some 20)"
    by (simp_all add: second_packet_def)
  from C3_windrun_increment[OF p1 r0, of no_math same_units True] obtain b1 where
    b1: "Buffer_add_wind_value no_math same_units fresh_buffer first_packet ''windSpeed''
           True True False = Inr b1"
        "windrun b1 = (case (Some (10::real), last_windSpeed_ts fresh_buffer) of
                              (Some v, Some t0) \<Rightarrow> windrun fresh_buffer + v * (0 - t0) / 1000
                            | _ \<Rightarrow> windrun fresh_buffer)"
        "last_windSpeed_ts b1 = Some 0" "wind_ready b1 True False"
    by (elim exE conjE) (rule that)
  from C3_windrun_increment[OF p2 b1(4), of no_math same_units True] obtain b2 where
    b2: "Buffer_add_wind_value no_math same_units b1 second_packet ''windSpeed''
           True True False = Inr b2"
        "windrun b2 = (case (Some (20::real), last_windSpeed_ts b1) of
                              (Some v, Some t0) \<Rightarrow> windrun b1 + v * (3600 - t0) / 1000
                            | _ \<Rightarrow> windrun b1)"
        "last_windSpeed_ts b2 = Some 3600"
    by (elim exE conjE) (rule that)
  have w1: "windrun b1 = 0" using b1(2) by (simp add: fresh_buffer_def)
  have w2: "windrun b2 = 72" using b2(2) b1(3) w1 by simp
  from b1(1,3) b2(1,3) w1 w2 show ?thesis by blast
qed

text \<open>
  The claim as first stated expects the second packet of the example to add 10 (the
  earlier speed 10 over one hour). Through \<open>add_packet\<close> the code adds 72.
\<close>

theorem C3_windrun_example_counterexample:
  "\<not> isl after_first \<and> \<not> isl after_second \<and>
   windrun (projr after_first) = 0 \<and> last_windSpeed_ts (projr after_first) = Some 0 \<and>
   windrun (projr after_second) = 72 \<and>
   windrun (projr after_second) - windrun (projr after_first) \<noteq> 10"
proof -
  have r0: "wind_ready fresh_buffer True False"
    by (simp add: wind_ready_def fresh_buffer_def)
  have p1: "map_of first_packet ''usUnits'' = Some (Some 16)"
    "map_of first_packet ''dateTime'' = Some (Some 0)"
    "map_of first_packet ''windSpeed'' = Some (Some 10)"
    by (simp_all add: first_packet_def)
  have p2: "map_of second_packet ''usUnits'' = Some (Some 16)"
    "map_of second_packet ''dateTime'' = Some (Some 3600)"
    "map_of second_packet ''windSpeed'' = Some (Some 20)"
    by (simp_all add: second_packet_def)
  have f1: "filter (\<lambda>f. f \<in> set MANIFEST) (map fst first_packet) = [''windSpeed'']"
    by (simp add: first_packet_def MANIFEST_def)
  have f2: "filter (\<lambda>f. f \<in> set MANIFEST) (map fst second_packet) = [''windSpeed'']"
    by (simp add: second_packet_def MANIFEST_def)
  from add_wind_value_windrun[OF p1 r0, of no_math same_units True] obtain b1 where
    b1: "Buffer_add_wind_value no_math same_units fresh_buffer first_packet ''windSpeed''
           True True False = Inr b1"
        "windrun b1 = (case (Some (10::real), last_windSpeed_ts fresh_buffer) of
                              (Some v, Some t0) \<Rightarrow> windrun fresh_buffer + v * (0 - t0) / 1000
                            | _ \<Rightarrow> windrun fresh_buffer)"
        "last_windSpeed_ts b1 = Some 0" "wind_ready b1 True False"
    by (elim exE conjE) (rule that)
  have a1: "after_first = Inr b1"
    unfolding after_first_def add_packet_windSpeed[OF p1(2) f1] by (rule b1(1))
  from add_wind_value_windrun[OF p2 b1(4), of no_math same_units True] obtain b2 where
    b2: "Buffer_add_wind_value no_math same_units b1 second_packet ''windSpeed''
           True True False = Inr b2"
        "windrun b2 = (case (Some (20::real), last_windSpeed_ts b1) of
                              (Some v, Some t0) \<Rightarrow> windrun b1 + v * (3600 - t0) / 1000
                            | _ \<Rightarrow> windrun b1)"
        "last_windSpeed_ts b2 = Some 3600"
    by (elim exE conjE) (rule that)
  have a2: "after_second = Inr b2"
    unfolding after_second_def a1 sum.sel add_packet_windSpeed[OF p2(2) f2] by (rule b2(1))
  have w1: "windrun b1 = 0" using b1(2) by (simp add: fresh_buffer_def)
  have w2: "windrun b2 = 72" using b2(2) b1(3) w1 by simp
  show ?thesis by (simp add: a1 a2 w1 w2 b1(3))
qed

section \<open>CachedPacket\<close>

text \<open>
  The loop of \<open>update\<close> leaves the unit system alone, and its effect on the cache is
  pointwise: a key of the packet other than the markers with a non-null value is
  overwritten, every other key keeps its entry.
\<close>

lemma store_field_cache:
  "cache (store_field p ts a c) k =
     (if k = a
      then (case map_of p a of
              Some (Some v) \<Rightarrow> Some \<lparr> ce_value = Some v, ce_ts = ts \<rparr>
            | _ \<Rightarrow> cache c k)
      else cache c k)"
  by (simp add: store_field_def split: option.splits)

lemma store_field_units: "unit_system (store_field p ts a c) = unit_system c"
  by (simp add: store_field_def split: option.splits)

lemma fold_store_units: "unit_system (fold (store_field p ts) ks c) = unit_system c"
  by (induction ks arbitrary: c) (simp_all add: store_field_units)

lemma store_fields_units: "unit_system (store_fields c p ts) = unit_system c"
  by (simp add: store_fields_def fold_store_units)

lemma fold_store_cache:
  "cache (fold (store_field p ts) ks c) k =
     (if k \<in> set ks
      then (case map_of p k of
              Some (Some v) \<Rightarrow> Some \<lparr> ce_value = Some v, ce_ts = ts \<rparr>
            | _ \<Rightarrow> cache c k)
      else cache c k)"
proof (induction ks arbitrary: c)
  case Nil
  show ?case by simp
next
  case (Cons a ks)
  have "cache (fold (store_field p ts) (a # ks) c) k =
        cache (fold (store_field p ts) ks (store_field p ts a c)) k" by simp
  also have "\<dots> = (if k \<in> set ks
      then (case map_of p k of
              Some (Some v) \<Rightarrow> Some \<lparr> ce_value = Some v, ce_ts = ts \<rparr>
            | _ \<Rightarrow> cache (store_field p ts a c) k)
      else cache (store_field p ts a c) k)" by (rule Cons.IH)
  also have "\<dots> = (if k \<in> set (a # ks)
      then (case map_of p k of
              Some (Some v) \<Rightarrow> Some \<lparr> ce_value = Some v, ce_ts = ts \<rparr>
            | _ \<Rightarrow> cache c k)
      else cache c k)"
    by (simp add: store_field_cache split: option.splits)
  finally show ?case .
qed

lemma store_fields_cache:
  "cache (store_fields c p ts) k =
     (if k = ''dateTime'' \<or> k = ''usUnits'' then cache c k
      else (case map_of p k of
              Some (Some v) \<Rightarrow> Some \<lparr> ce_value = Some v, ce_ts = ts \<rparr>
            | _ \<Rightarrow> cache c k))"
proof (cases "map_of p k")
  case None
  then show ?thesis by (simp add: store_fields_def fold_store_cache)
next
  case (Some a)
  then have "k \<in> fst ` set p" using map_of_eq_None_iff[of p k] by auto
  then show ?thesis using Some
    by (simp add: store_fields_def fold_store_cache split: option.splits)
qed

lemma update_cases:
  assumes "CachedPacket_update to_std c p ts = Inr c'"
  shows "\<exists>c0 q. c' = store_fields c0 q ts \<and> cache c0 = cache c \<and>
               (q = p \<or> (\<exists>u. q = to_std p u))"
proof -
  from assms obtain u where u: "getitem p ''usUnits'' = Inr u"
    by (cases "getitem p ''usUnits''") (simp_all add: CachedPacket_update_def)
  show ?thesis
  proof (cases "unit_system c")
    case None
    have "CachedPacket_update to_std c p ts = Inr (store_fields (c\<lparr> unit_system := u \<rparr>) p ts)"
      by (simp add: CachedPacket_update_def u None)
    with assms have "c' = store_fields (c\<lparr> unit_system := u \<rparr>) p ts" by simp
    then show ?thesis by (intro exI[of _ "c\<lparr> unit_system := u \<rparr>"] exI[of _ p]) simp
  next
    case (Some us)
    show ?thesis
    proof (cases "u = Some us")
      case True
      have "CachedPacket_update to_std c p ts = Inr (store_fields c p ts)"
        by (simp add: CachedPacket_update_def u Some True)
      with assms have "c' = store_fields c p ts" by simp
      then show ?thesis by (intro exI[of _ c] exI[of _ p]) simp
    next
      case False
      then have ne: "Some us \<noteq> u" by auto
      have "CachedPacket_update to_std c p ts = Inr (store_fields c (to_std p (Some us)) ts)"
        by (simp add: CachedPacket_update_def u Some ne)
      with assms have "c' = store_fields c (to_std p (Some us)) ts" by simp
      then show ?thesis by (intro exI[of _ c] exI[of _ "to_std p (Some us)"]) auto
    qed
  qed
qed

lemma store_fields_omitted:
  "omitted q name \<Longrightarrow> cache (store_fields c0 q ts) name = cache c0 name"
  by (auto simp: store_fields_cache omitted_def split: option.splits)

lemma update_keep:
  assumes "CachedPacket_update to_std c p ts = Inr c'"
    and "omitted p name" and "\<forall>u. omitted (to_std p u) name"
  shows "cache c' name = cache c name"
proof -
  from update_cases[OF assms(1)] obtain c0 q where
    q: "c' = store_fields c0 q ts" "cache c0 = cache c" "q = p \<or> (\<exists>u. q = to_std p u)"
    by blast
  from q(3) assms(2,3) have "omitted q name" by auto
  with q(1,2) show ?thesis by (simp add: store_fields_omitted)
qed

lemma updates_keep:
  "updates to_std c qs = Inr c' \<Longrightarrow>
   \<forall>q\<in>set qs. omitted (fst q) name \<and> (\<forall>u. omitted (to_std (fst q) u) name) \<Longrightarrow>
   cache c' name = cache c name"
proof (induction qs arbitrary: c)
  case Nil
  then show ?case by simp
next
  case (Cons q qs)
  from Cons.prems(1) obtain c1 where
    c1: "CachedPacket_update to_std c (fst q) (snd q) = Inr c1" "updates to_std c1 qs = Inr c'"
    by (cases "CachedPacket_update to_std c (fst q) (snd q)") simp_all
  from Cons.prems(2) have "omitted (fst q) name" "\<forall>u. omitted (to_std (fst q) u) name"
    by simp_all
  from update_keep[OF c1(1) this] have "cache c1 name = cache c name" .
  moreover from Cons.IH[OF c1(2)] Cons.prems(2) have "cache c' name = cache c1 name" by simp
  ultimately show ?case by simp
qed

lemma get_value_entry:
  "cache c name = Some en \<Longrightarrow> ce_ts en = Some tc \<Longrightarrow>
   CachedPacket_get_value c name ts max_age = Inr (if ts - tc \<le> max_age then ce_value en else None)"
  by (simp add: CachedPacket_get_value_def)

text \<open>
  Claim C4. \<open>get_value\<close> returns null for an observation that is not cached. For a cached
  entry with timestamp \<open>tc\<close> it returns the cached value when \<open>ts - tc \<le> max_age\<close> and
  null otherwise. The same holds after any sequence of successful updates whose packets
  (also after unit conversion) omit the field or carry it as null: the entry cached
  before them is the one that is read.
\<close>

theorem C4_get_value_fresh:
  "(cache c name = None \<longrightarrow> CachedPacket_get_value c name ts max_age = Inr None) \<and>
   (cache c name = Some en \<and> ce_ts en = Some tc \<longrightarrow>
      CachedPacket_get_value c name ts max_age
        = Inr (if ts - tc \<le> max_age then ce_value en else None)) \<and>
   (cache c name = Some en \<and> ce_ts en = Some tc \<and> updates to_std c qs = Inr c' \<and>
    (\<forall>q\<in>set qs. omitted (fst q) name \<and> (\<forall>u. omitted (to_std (fst q) u) name)) \<longrightarrow>
      CachedPacket_get_value c' name ts max_age
        = Inr (if ts - tc \<le> max_age then ce_value en else None))"
proof (intro conjI impI)
  assume "cache c name = None"
  then show "CachedPacket_get_value c name ts max_age = Inr None"
    by (simp add: CachedPacket_get_value_def)
next
  assume "cache c name = Some en \<and> ce_ts en = Some tc"
  then show "CachedPacket_get_value c name ts max_age
        = Inr (if ts - tc \<le> max_age then ce_value en else None)"
    by (simp add: get_value_entry)
next
  assume a: "cache c name = Some en \<and> ce_ts en = Some tc \<and> updates to_std c qs = Inr c' \<and>
    (\<forall>q\<in>set qs. omitted (fst q) name \<and> (\<forall>u. omitted (to_std (fst q) u) name))"
  then have "cache c' name = cache c name" using updates_keep by blast
  with a show "CachedPacket_get_value c' name ts max_age
        = Inr (if ts - tc \<le> max_age then ce_value en else None)"
    by (simp add: get_value_entry)
qed

text \<open>
  A cache primed with \<open>outTemp = 21\<close> at time 10, then two updates without a value for
  \<open>outTemp\<close>: the value is returned at time 100 and has expired at time 1000; the boundary
  age 600 still returns it; an unknown name gives null.
\<close>

theorem C4_get_value_fresh_witness:
  "CachedPacket_get_value (projr (updates id_std primed_cache partial_packets)) ''outTemp'' 100 600
     = Inr (Some 21) \<and>
   CachedPacket_get_value (projr (updates id_std primed_cache partial_packets)) ''outTemp'' 1000 600
     = Inr None \<and>
   CachedPacket_get_value primed_cache ''outTemp'' 610 600 = Inr (Some 21) \<and>
   CachedPacket_get_value primed_cache ''nosuch'' 610 600 = Inr None"
proof -
  let ?c' = "projr (updates id_std primed_cache partial_packets)"
  let ?en = "\<lparr> ce_value = Some 21, ce_ts = Some 10 \<rparr>"
  have e: "cache primed_cache ''outTemp'' = Some ?en"
    by (simp add: primed_cache_def CachedPacket_init_def Let_def OBS_def)
  have n: "cache primed_cache ''nosuch'' = None"
    by (simp add: primed_cache_def CachedPacket_init_def Let_def OBS_def)
  have "\<not> isl (updates id_std primed_cache partial_packets)"
    by (simp add: primed_cache_def partial_packets_def CachedPacket_init_def Let_def
          CachedPacket_update_def getitem_def id_std_def store_fields_units)
  then have u: "updates id_std primed_cache partial_packets = Inr ?c'"
    by (cases "updates id_std primed_cache partial_packets") simp_all
  have om: "\<forall>q\<in>set partial_packets.
              omitted (fst q) ''outTemp'' \<and> (\<forall>u. omitted (id_std (fst q) u) ''outTemp'')"
    by (simp add: partial_packets_def omitted_def id_std_def)
  have t: "ce_ts ?en = Some 10" by simp
  note th = C4_get_value_fresh[where c = primed_cache and en = ?en and tc = 10
      and to_std = id_std and qs = partial_packets and c' = ?c' and max_age = 600]
  have "CachedPacket_get_value ?c' ''outTemp'' 100 600 = Inr (Some 21)"
    using th[where name = "''outTemp''" and ts = 100] e t u om by simp
  moreover have "CachedPacket_get_value ?c' ''outTemp'' 1000 600 = Inr None"
    using th[where name = "''outTemp''" and ts = 1000] e t u om by simp
  moreover have "CachedPacket_get_value primed_cache ''outTemp'' 610 600 = Inr (Some 21)"
    using th[where name = "''outTemp''" and ts = 610] e t by simp
  moreover have "CachedPacket_get_value primed_cache ''nosuch'' 610 600 = Inr None"
    using th[where name = "''nosuch''" and ts = 610] n by simp
  ultimately show ?thesis by blast
qed

text \<open>
  Claim C5, as amended. For a packet in the cache's unit system (or a cache without a
  unit system yet), \<open>update\<close> returns without an exception, and the cache afterwards is:
  the markers \<open>dateTime\<close> and \<open>usUnits\<close> keep whatever entry they had; every other field
  of the packet with a non-null value is overwritten with that value and the timestamp
  \<open>ts\<close>, whether or not it is in \<open>CachedPacket.OBS\<close>; every other key keeps its entry. So
  the key set grows by the non-null, non-marker fields of the packet.
\<close>

theorem C5_update_stores_every_field:
  assumes "map_of p ''usUnits'' = Some u" and "unit_system c = None \<or> unit_system c = u"
  shows "\<exists>c'. CachedPacket_update to_std c p ts = Inr c' \<and>
           (\<forall>k. cache c' k =
                  (if k = ''dateTime'' \<or> k = ''usUnits'' then cache c k
                   else (case map_of p k of
                           Some (Some v) \<Rightarrow> Some \<lparr> ce_value = Some v, ce_ts = ts \<rparr>
                         | _ \<Rightarrow> cache c k))) \<and>
           dom (cache c') =
             dom (cache c) \<union>
             {k. k \<noteq> ''dateTime'' \<and> k \<noteq> ''usUnits'' \<and> (\<exists>v. map_of p k = Some (Some v))}"
proof -
  have "\<exists>c0. CachedPacket_update to_std c p ts = Inr (store_fields c0 p ts) \<and> cache c0 = cache c"
  proof (cases "unit_system c")
    case None
    have "CachedPacket_update to_std c p ts = Inr (store_fields (c\<lparr> unit_system := u \<rparr>) p ts)"
      by (simp add: CachedPacket_update_def getitem_def assms(1) None)
    then show ?thesis by (intro exI[of _ "c\<lparr> unit_system := u \<rparr>"]) simp
  next
    case (Some us)
    with assms(2) have us: "u = Some us" by simp
    have "CachedPacket_update to_std c p ts = Inr (store_fields c p ts)"
      by (simp add: CachedPacket_update_def getitem_def assms(1) Some us)
    then show ?thesis by (intro exI[of _ c]) simp
  qed
  then obtain c0 where c0: "CachedPacket_update to_std c p ts = Inr (store_fields c0 p ts)"
    "cache c0 = cache c" by blast
  have pt: "\<forall>k. cache (store_fields c0 p ts) k =
                  (if k = ''dateTime'' \<or> k = ''usUnits'' then cache c k
                   else (case map_of p k of
                           Some (Some v) \<Rightarrow> Some \<lparr> ce_value = Some v, ce_ts = ts \<rparr>
                         | _ \<Rightarrow> cache c k))"
    by (simp add: store_fields_cache c0(2) split: option.splits)
  have dm: "dom (cache (store_fields c0 p ts)) =
             dom (cache c) \<union>
             {k. k \<noteq> ''dateTime'' \<and> k \<noteq> ''usUnits'' \<and> (\<exists>v. map_of p k = Some (Some v))}"
  proof (rule set_eqI)
    fix k
    show "k \<in> dom (cache (store_fields c0 p ts)) \<longleftrightarrow>
          k \<in> dom (cache c) \<union>
             {k. k \<noteq> ''dateTime'' \<and> k \<noteq> ''usUnits'' \<and> (\<exists>v. map_of p k = Some (Some v))}"
    proof (cases "k = ''dateTime'' \<or> k = ''usUnits''")
      case True
      then show ?thesis using pt[rule_format, of k] by (auto simp: dom_def)
    next
      case False
      show ?thesis
      proof (cases "map_of p k")
        case None
        then show ?thesis using False pt[rule_format, of k] by (simp add: dom_def)
      next
        case (Some a)
        then show ?thesis using False pt[rule_format, of k] by (cases a) (simp_all add: dom_def)
      qed
    qed
  qed
  show ?thesis using c0(1) pt dm by blast
qed

text \<open>
  On a cache primed from an empty record, \<open>demo_packet\<close> at time 10: \<open>outTemp\<close> and the
  untracked \<open>foo\<close> are stored with time 10, the null \<open>rain\<close> and the absent \<open>barometer\<close>
  keep the entries of the initialisation.
\<close>

theorem C5_update_stores_every_field_witness:
  "\<exists>c'. CachedPacket_update id_std (CachedPacket_init [] 0) demo_packet (Some 10) = Inr c' \<and>
        cache c' ''outTemp'' = Some \<lparr> ce_value = Some 21, ce_ts = Some 10 \<rparr> \<and>
        cache c' ''rain'' = Some \<lparr> ce_value = None, ce_ts = Some 0 \<rparr> \<and>
        cache c' ''barometer'' = Some \<lparr> ce_value = None, ce_ts = Some 0 \<rparr> \<and>
        cache c' ''foo'' = Some \<lparr> ce_value = Some 5, ce_ts = Some 10 \<rparr>"
proof -
  have u: "map_of demo_packet ''usUnits'' = Some (Some 16)" by (simp add: demo_packet_def)
  have n: "unit_system (CachedPacket_init [] 0) = None \<or>
           unit_system (CachedPacket_init [] 0) = Some 16"
    by (simp add: CachedPacket_init_def Let_def)
  from C5_update_stores_every_field[OF u n, of id_std "Some 10"] obtain c' where
    c': "CachedPacket_update id_std (CachedPacket_init [] 0) demo_packet (Some 10) = Inr c'"
    and pt: "\<forall>k. cache c' k =
                  (if k = ''dateTime'' \<or> k = ''usUnits'' then cache (CachedPacket_init [] 0) k
                   else (case map_of demo_packet k of
                           Some (Some v) \<Rightarrow> Some \<lparr> ce_value = Some v, ce_ts = Some 10 \<rparr>
                         | _ \<Rightarrow> cache (CachedPacket_init [] 0) k))"
    by (elim exE conjE) (rule that)
  have "cache c' ''outTemp'' = Some \<lparr> ce_value = Some 21, ce_ts = Some 10 \<rparr>"
    using pt[rule_format, of "''outTemp''"] by (simp add: demo_packet_def)
  moreover have "cache c' ''rain'' = Some \<lparr> ce_value = None, ce_ts = Some 0 \<rparr>"
    using pt[rule_format, of "''rain''"] by (simp add: demo_packet_def CachedPacket_init_def Let_def OBS_def)
  moreover have "cache c' ''barometer'' = Some \<lparr> ce_value = None, ce_ts = Some 0 \<rparr>"
    using pt[rule_format, of "''barometer''"]
    by (simp add: demo_packet_def CachedPacket_init_def Let_def OBS_def)
  moreover have "cache c' ''foo'' = Some \<lparr> ce_value = Some 5, ce_ts = Some 10 \<rparr>"
    using pt[rule_format, of "''foo''"] by (simp add: demo_packet_def)
  ultimately show ?thesis using c' by simp
qed

text \<open>
  The claim as first stated has a field outside \<open>CachedPacket.OBS\<close> ignored. The field
  \<open>foo\<close> is not in \<open>OBS\<close>, has no entry before the update and has one after it.
\<close>

theorem C5_untracked_field_counterexample:
  "\<not> isl (CachedPacket_update id_std (CachedPacket_init [] 0) demo_packet (Some 10)) \<and>
   cache (projr (CachedPacket_update id_std (CachedPacket_init [] 0) demo_packet (Some 10))) ''foo''
     = Some \<lparr> ce_value = Some 5, ce_ts = Some 10 \<rparr> \<and>
   cache (CachedPacket_init [] 0) ''foo'' = None \<and>
   ''foo'' \<notin> set OBS"
  by (simp add: CachedPacket_update_def getitem_def CachedPacket_init_def Let_def
        demo_packet_def store_fields_cache id_std_def OBS_def)

section \<open>calc_trend\<close>

text \<open>
  The cases in which \<open>calc_trend\<close> returns: null when the current value is null, when
  the lookup finds no record, and when the record lacks the observation; the
  difference \<open>a - b\<close> when the record has the observation and both converted values are
  numbers \<open>a\<close> and \<open>b\<close>. The function is a pure function of its arguments.
\<close>

lemma calc_trend_cases:
  "(vt_value now_vt = None \<longrightarrow>
      calc_trend getRecord as_vt conv obs_type now_vt target then_ts grace = Inr None) \<and>
   (getRecord then_ts grace = None \<longrightarrow>
      calc_trend getRecord as_vt conv obs_type now_vt target then_ts grace = Inr None) \<and>
   (getRecord then_ts grace = Some r \<and> map_of r obs_type = None \<longrightarrow>
      calc_trend getRecord as_vt conv obs_type now_vt target then_ts grace = Inr None) \<and>
   (vt_value now_vt = Some nv \<and> getRecord then_ts grace = Some r \<and> map_of r obs_type = Some rv \<and>
    vt_value (conv now_vt target) = Some a \<and>
    vt_value (conv (as_vt r obs_type) target) = Some b \<longrightarrow>
      calc_trend getRecord as_vt conv obs_type now_vt target then_ts grace = Inr (Some (a - b)))"
  by (simp add: calc_trend_def split: option.splits)

text \<open>
  A current value of 15 against a record holding 12 gives 3; a null current value, a
  failed lookup and a record without the observation give null.
\<close>

lemma calc_trend_cases_example:
  "calc_trend (stub_record (Some 12)) stub_tuple same_unit ''outTemp''
      \<lparr> vt_value = Some 15, vt_unit = ''degree_C'', vt_group = ''group_temperature'' \<rparr>
      ''degree_C'' 1000 0 = Inr (Some 3) \<and>
   calc_trend (stub_record (Some 12)) stub_tuple same_unit ''outTemp''
      \<lparr> vt_value = None, vt_unit = ''degree_C'', vt_group = ''group_temperature'' \<rparr>
      ''degree_C'' 1000 0 = Inr None \<and>
   calc_trend (\<lambda>t g. None) stub_tuple same_unit ''outTemp''
      \<lparr> vt_value = Some 15, vt_unit = ''degree_C'', vt_group = ''group_temperature'' \<rparr>
      ''degree_C'' 1000 0 = Inr None \<and>
   calc_trend (stub_record (Some 12)) stub_tuple same_unit ''inTemp''
      \<lparr> vt_value = Some 15, vt_unit = ''degree_C'', vt_group = ''group_temperature'' \<rparr>
      ''degree_C'' 1000 0 = Inr None"
proof -
  let ?now = "\<lparr> vt_value = Some 15, vt_unit = ''degree_C'', vt_group = ''group_temperature'' \<rparr>"
  let ?null = "\<lparr> vt_value = None, vt_unit = ''degree_C'', vt_group = ''group_temperature'' \<rparr>"
  let ?r = "[(''dateTime'', Some 1000), (''usUnits'', Some 16), (''outTemp'', Some (12::real))]"
  have "calc_trend (stub_record (Some 12)) stub_tuple same_unit ''outTemp'' ?now
          ''degree_C'' 1000 0 = Inr (Some 3)"
    using calc_trend_cases[where now_vt = ?now and getRecord = "stub_record (Some 12)"
        and as_vt = stub_tuple and conv = same_unit and obs_type = "''outTemp''"
        and target = "''degree_C''" and then_ts = 1000 and grace = 0
        and nv = 15 and r = ?r and rv = "Some 12" and a = 15 and b = 12]
    by (simp add: stub_record_def stub_tuple_def same_unit_def get_or_none_def)
  moreover have "calc_trend (stub_record (Some 12)) stub_tuple same_unit ''outTemp'' ?null
          ''degree_C'' 1000 0 = Inr None"
    using calc_trend_cases[where now_vt = ?null and getRecord = "stub_record (Some 12)"
        and as_vt = stub_tuple and conv = same_unit and obs_type = "''outTemp''"
        and target = "''degree_C''" and then_ts = 1000 and grace = 0]
    by simp
  moreover have "calc_trend (\<lambda>t g. None) stub_tuple same_unit ''outTemp'' ?now
          ''degree_C'' 1000 0 = Inr None"
    using calc_trend_cases[where now_vt = ?now and getRecord = "\<lambda>t g. None"
        and as_vt = stub_tuple and conv = same_unit and obs_type = "''outTemp''"
        and target = "''degree_C''" and then_ts = 1000 and grace = 0]
    by simp
  moreover have "calc_trend (stub_record (Some 12)) stub_tuple same_unit ''inTemp'' ?now
          ''degree_C'' 1000 0 = Inr None"
    using calc_trend_cases[where now_vt = ?now and getRecord = "stub_record (Some 12)"
        and as_vt = stub_tuple and conv = same_unit and obs_type = "''inTemp''"
        and target = "''degree_C''" and then_ts = 1000 and grace = 0 and r = ?r]
    by (simp add: stub_record_def)
  ultimately show ?thesis by blast
qed

text \<open>
  Claim C6. The claim has the difference returned in every case not answered by null.
  The function tests the current value for null but not the historical one: with a
  record that holds the observation with a null value, as an archive record written
  during a sensor outage does, \<open>now - then\<close> raises \<open>TypeError\<close> instead of returning
  a value.
\<close>

theorem C6_null_history_raises:
  "calc_trend (stub_record None) stub_tuple same_unit ''outTemp''
      \<lparr> vt_value = Some 15, vt_unit = ''degree_C'', vt_group = ''group_temperature'' \<rparr>
      ''degree_C'' 1000 0 = Inl TypeError"
  by (simp add: calc_trend_def stub_record_def stub_tuple_def same_unit_def get_or_none_def)

section \<open>trim_history\<close>

text \<open>
  The history that \<open>add_value\<close> leaves is the output of the filter of \<open>trim_history\<close>; the
  later blocks do not touch it.
\<close>

lemma filtered_young:
  assumes "e \<in> set (filter (\<lambda>e. py_gt (snd e) (t - MAX_AGE)) h)"
  shows "\<exists>u. snd e = Some u \<and> t - u < MAX_AGE"
proof -
  from assms have "py_gt (snd e) (t - MAX_AGE)" by simp
  then obtain u where "snd e = Some u" "u > t - MAX_AGE" by (auto simp: py_gt_iff)
  then show ?thesis by (intro exI[of _ u]) simp
qed

lemma scalar_add_value_history:
  assumes "ScalarBuffer_add_value s (Some v) (Some ts) hilo True sm = Inr s'"
  shows "\<exists>h. history s' = Some h \<and> (\<forall>e\<in>set h. \<exists>u. snd e = Some u \<and> ts - u < MAX_AGE)"
proof -
  define s2 where "s2 = (if hilo
      then scalar_set_max (scalar_set_min (scalar_set_last s v (Some ts)) v (Some ts)) v (Some ts)
      else scalar_set_last s v (Some ts))"
  have unf: "ScalarBuffer_add_value s (Some v) (Some ts) hilo True sm =
     (case scalar_add_history s2 v (Some ts) of
        Inl e \<Rightarrow> Inl e
      | Inr s3 \<Rightarrow> if sm then scalar_add_sums s3 v else Inr s3)"
    by (simp add: ScalarBuffer_add_value_def Let_def s2_def)
  from assms obtain s3 where s3: "scalar_add_history s2 v (Some ts) = Inr s3"
    and s': "(if sm then scalar_add_sums s3 v else Inr s3) = Inr s'"
    unfolding unf by (cases "scalar_add_history s2 v (Some ts)") simp_all
  from scalar_add_history_hist[OF s3] obtain h where
    h: "history s3 = Some (filter (\<lambda>e. py_gt (snd e) (ts - MAX_AGE)) h)" by blast
  have "history s' = history s3"
  proof (cases sm)
    case True
    with s' show ?thesis by (simp add: scalar_add_sums_hist)
  next
    case False
    with s' show ?thesis by simp
  qed
  with h have "history s' = Some (filter (\<lambda>e. py_gt (snd e) (ts - MAX_AGE)) h)" by simp
  then show ?thesis using filtered_young by blast
qed

lemma vector_add_history_hist:
  assumes "vector_add_history M s w d (Some t) = Inr s'"
  shows "\<exists>h. v_history s' = Some (filter (\<lambda>e. py_gt (snd e) (t - MAX_AGE)) h)"
proof (cases "v_history s")
  case None
  with assms show ?thesis by (simp add: vector_add_history_def)
next
  case (Some h)
  let ?e = "((w, m_cos M (m_radians M (90 - d)), m_sin M (m_radians M (90 - d))), Some t)"
  from vector_add_history_ok[OF Some, of M w d t] assms
  have "s' = s\<lparr> v_history_full :=
                     Some (min_list (List.map_filter snd (h @ [?e])) \<le> t - MAX_AGE),
                v_history :=
                     Some (filter (\<lambda>e. py_gt (snd e) (t - MAX_AGE)) (h @ [?e])) \<rparr>"
    by simp
  then have "v_history s' = Some (filter (\<lambda>e. py_gt (snd e) (t - MAX_AGE)) (h @ [?e]))"
    by simp
  then show ?thesis by blast
qed

lemma vector_add_sumtime_hist:
  "vector_add_sumtime s ts = Inr s' \<Longrightarrow> v_history s' = v_history s"
  by (auto simp: vector_add_sumtime_def split: option.splits if_splits)

lemma vector_add_xysum_hist:
  "vector_add_xysum M s w wd = Inr s' \<Longrightarrow> v_history s' = v_history s"
  by (auto simp: vector_add_xysum_def split: option.splits)

lemma vector_add_sums_hist:
  assumes "vector_add_sums M s w wd ts = Inr s'"
  shows "v_history s' = v_history s"
proof -
  from assms obtain d where d: "v_day_sum s = Some d"
    by (cases "v_day_sum s") (simp_all add: vector_add_sums_def)
  with assms obtain s1 where s1: "vector_add_sumtime (s\<lparr> v_day_sum := Some (d + w) \<rparr>) ts = Inr s1"
    and s2: "vector_add_xysum M s1 w wd = Inr s'"
    by (cases "vector_add_sumtime (s\<lparr> v_day_sum := Some (d + w) \<rparr>) ts")
       (simp_all add: vector_add_sums_def)
  from vector_add_sumtime_hist[OF s1] vector_add_xysum_hist[OF s2] show ?thesis by simp
qed

lemma vector_set_last_hist: "v_history (vector_set_last s w wd ts) = v_history s"
  by (simp add: vector_set_last_def split: option.splits)

lemma vector_add_value_history:
  assumes "VectorBuffer_add_value M b (Some w, Some d) (Some ts) hilo True sm = Inr b'"
  shows "\<exists>h. v_history b' = Some h \<and> (\<forall>e\<in>set h. \<exists>u. snd e = Some u \<and> ts - u < MAX_AGE)"
proof -
  define s1 where "s1 = (if hilo
      then vector_set_max (vector_set_min b w (Some ts)) w (Some d) (Some ts) else b)"
  have unf: "VectorBuffer_add_value M b (Some w, Some d) (Some ts) hilo True sm =
     (case vector_add_history M s1 w d (Some ts) of
        Inl e \<Rightarrow> Inl e
      | Inr s2 \<Rightarrow>
          (case (if sm then vector_add_sums M s2 w (Some d) (Some ts) else Inr s2) of
             Inl e \<Rightarrow> Inl e
           | Inr s3 \<Rightarrow> Inr (vector_set_last s3 w (Some d) (Some ts))))"
    by (simp add: VectorBuffer_add_value_def Let_def s1_def)
  from assms obtain s2 where s2: "vector_add_history M s1 w d (Some ts) = Inr s2"
    and r2: "(case (if sm then vector_add_sums M s2 w (Some d) (Some ts) else Inr s2) of
             Inl e \<Rightarrow> Inl e
           | Inr s3 \<Rightarrow> Inr (vector_set_last s3 w (Some d) (Some ts))) = Inr b'"
    unfolding unf by (cases "vector_add_history M s1 w d (Some ts)") simp_all
  from r2 obtain s3 where s3: "(if sm then vector_add_sums M s2 w (Some d) (Some ts) else Inr s2) = Inr s3"
    and b': "b' = vector_set_last s3 w (Some d) (Some ts)"
    by (cases "if sm then vector_add_sums M s2 w (Some d) (Some ts) else Inr s2") auto
  from vector_add_history_hist[OF s2] obtain h where
    h: "v_history s2 = Some (filter (\<lambda>e. py_gt (snd e) (ts - MAX_AGE)) h)" by blast
  have "v_history s3 = v_history s2"
  proof (cases sm)
    case True
    with s3 show ?thesis by (simp add: vector_add_sums_hist)
  next
    case False
    with s3 show ?thesis by simp
  qed
  with h b' have "v_history b' = Some (filter (\<lambda>e. py_gt (snd e) (ts - MAX_AGE)) h)"
    by (simp add: vector_set_last_hist)
  then show ?thesis using filtered_young by blast
qed

text \<open>
  Claim C7. When a history-tracking ScalarBuffer, or a VectorBuffer given a non-null
  direction, completes the add of a non-null value at timestamp \<open>ts\<close>, every entry of its
  history has a non-null timestamp \<open>u\<close> with \<open>ts - u < MAX_AGE\<close>.
\<close>

theorem C7_history_trimmed:
  "(ScalarBuffer_add_value s (Some v) (Some ts) hilo True sm = Inr s' \<longrightarrow>
      (\<exists>h. history s' = Some h \<and> (\<forall>e\<in>set h. \<exists>u. snd e = Some u \<and> ts - u < MAX_AGE))) \<and>
   (VectorBuffer_add_value M b (Some w, Some d) (Some tv) hv True sv = Inr b' \<longrightarrow>
      (\<exists>h. v_history b' = Some h \<and> (\<forall>e\<in>set h. \<exists>u. snd e = Some u \<and> tv - u < MAX_AGE)))"
  using scalar_add_value_history vector_add_value_history by blast

text \<open>
  Histories with entries at times 100 and 900, and an add at time 1000: both adds
  complete, and the entry of age 900 is gone.
\<close>

theorem C7_history_trimmed_witness:
  "(\<exists>h. history (projr (ScalarBuffer_add_value old_scalar (Some 3) (Some 1000) True True False))
           = Some h \<and> (\<forall>e\<in>set h. \<exists>u. snd e = Some u \<and> 1000 - u < MAX_AGE)) \<and>
   (\<exists>h. v_history (projr (VectorBuffer_add_value no_math old_vector (Some 3, Some 90)
                              (Some 1000) True True True))
           = Some h \<and> (\<forall>e\<in>set h. \<exists>u. snd e = Some u \<and> 1000 - u < MAX_AGE))"
proof -
  have e1: "ScalarBuffer_add_value old_scalar (Some 3) (Some 1000) True True False =
        Inr (projr (ScalarBuffer_add_value old_scalar (Some 3) (Some 1000) True True False))"
    by (simp add: old_scalar_def ScalarBuffer_init_def ScalarBuffer_add_value_def
          scalar_set_last_def scalar_set_min_def scalar_set_max_def scalar_add_history_def
          ScalarBuffer_trim_history_def Let_def List.map_filter_def MAX_AGE_def)
  have "\<not> isl (VectorBuffer_add_value no_math old_vector (Some 3, Some 90) (Some 1000) True True True)"
    by (simp add: old_vector_def no_math_def VectorBuffer_init_def VectorBuffer_add_value_def
          vector_set_last_def vector_set_min_def vector_set_max_def vector_add_history_def
          VectorBuffer_trim_history_def vector_add_sums_def vector_add_sumtime_def
          vector_add_xysum_def Let_def List.map_filter_def MAX_AGE_def)
  then have e2: "VectorBuffer_add_value no_math old_vector (Some 3, Some 90) (Some 1000) True True True =
        Inr (projr (VectorBuffer_add_value no_math old_vector (Some 3, Some 90) (Some 1000) True True True))"
    by (cases "VectorBuffer_add_value no_math old_vector (Some 3, Some 90) (Some 1000) True True True") simp_all
  from C7_history_trimmed[where s = old_scalar and v = 3 and ts = 1000 and hilo = True
      and sm = False
      and s' = "projr (ScalarBuffer_add_value old_scalar (Some 3) (Some 1000) True True False)"
      and M = no_math and b = old_vector and w = 3 and d = 90 and tv = 1000 and hv = True
      and sv = True
      and b' = "projr (VectorBuffer_add_value no_math old_vector (Some 3, Some 90)
                         (Some 1000) True True True)"]
    e1 e2
  show ?thesis by blast
qed

section \<open>history_max and history_avg\<close>

text \<open>
  Claim C9. On the history \<open>[(5, 100)]\<close>, which \<open>add_value\<close> builds, \<open>history_avg(1000, 60)\<close>
  selects no entry and raises \<open>ZeroDivisionError\<close> instead of returning null, and
  \<open>history_max(100, 600)\<close> selects the entry and raises \<open>NameError\<close> instead of returning
  it.
\<close>

theorem C9_history_scan_raises:
  "ScalarBuffer_history_avg
     ((ScalarBuffer_init None (Some 16) True False)\<lparr> history := Some [(5, Some 100)] \<rparr>) 1000 60
     = Inl ZeroDivisionError \<and>
   ScalarBuffer_history_max
     ((ScalarBuffer_init None (Some 16) True False)\<lparr> history := Some [(5, Some 100)] \<rparr>) 100 600
     = Inl NameError \<and>
   ScalarBuffer_add_value (ScalarBuffer_init None (Some 16) True False) (Some 5) (Some 100)
       False True False
     = Inr ((ScalarBuffer_init None (Some 16) True False)
              \<lparr> lastval := Some 5, lasttime := Some 100, history := Some [(5, Some 100)] \<rparr>)"
  by (simp add: ScalarBuffer_history_avg_def ScalarBuffer_history_max_def ScalarBuffer_init_def
        ScalarBuffer_add_value_def scalar_set_last_def scalar_add_history_def
        ScalarBuffer_trim_history_def Let_def List.map_filter_def MAX_AGE_def)

section \<open>VectorBuffer.day_reset\<close>

text \<open>
  Claim C10. \<open>day_reset\<close> sets \<open>day_min\<close>, \<open>day_mintime\<close>, \<open>day_max\<close>, \<open>day_max_dir\<close> and
  \<open>day_maxtime\<close> to null and \<open>day_sum\<close> to 0, and leaves every other attribute as it was;
  the derived \<open>day_vec_avg\<close> and \<open>day_vec_dir\<close> read the same after the reset as before.
\<close>

theorem C10_day_reset_frame:
  "v_day_min (VectorBuffer_day_reset s) = None \<and>
   v_day_mintime (VectorBuffer_day_reset s) = None \<and>
   v_day_max (VectorBuffer_day_reset s) = None \<and>
   v_day_max_dir (VectorBuffer_day_reset s) = None \<and>
   v_day_maxtime (VectorBuffer_day_reset s) = None \<and>
   v_day_sum (VectorBuffer_day_reset s) = Some 0 \<and>
   v_day_xsum (VectorBuffer_day_reset s) = v_day_xsum s \<and>
   v_day_ysum (VectorBuffer_day_reset s) = v_day_ysum s \<and>
   v_sumtime (VectorBuffer_day_reset s) = v_sumtime s \<and>
   v_nineam_sum (VectorBuffer_day_reset s) = v_nineam_sum s \<and>
   v_interval_sum (VectorBuffer_day_reset s) = v_interval_sum s \<and>
   v_last (VectorBuffer_day_reset s) = v_last s \<and>
   v_lasttime (VectorBuffer_day_reset s) = v_lasttime s \<and>
   v_units (VectorBuffer_day_reset s) = v_units s \<and>
   v_history (VectorBuffer_day_reset s) = v_history s \<and>
   v_history_full (VectorBuffer_day_reset s) = v_history_full s \<and>
   day_vec_avg M (VectorBuffer_day_reset s) = day_vec_avg M s \<and>
   day_vec_dir M (VectorBuffer_day_reset s) = day_vec_dir M s"
  by (simp add: VectorBuffer_day_reset_def day_vec_avg_def day_vec_dir_def)

end
